theory Spec2Isabelle
  imports Complex_Main "HOL-Library.Word" "HOL-Library.Sublist"
begin

section \<open>ECMAScript values\<close>

text \<open>
  A JavaScript string is a sequence of 16-bit code units. \<open>js\<close> embeds an ASCII
  literal of the source.
\<close>

type_synonym jsstring = "16 word list"

definition js :: "string \<Rightarrow> jsstring" where
  "js s = map (\<lambda>c. word_of_nat (of_char c)) s"

text \<open>
  The values the handler reads out of a parsed JSON body, and \<open>undefined\<close>.
  \<open>Number\<close> carries the mathematical value of the JSON number (rounding to a double
  is not modelled); \<open>Object\<close> lists the own properties of the parsed object;
  \<open>Builtin\<close> is a method inherited from a prototype.
\<close>

datatype jsvalue =
    Undefined
  | Null
  | Bool bool
  | Number rat
  | Str jsstring
  | Array "jsvalue list"
  | Object "(jsstring \<times> jsvalue) list"
  | Builtin

text \<open>A thrown error: its constructor's name and its \<open>message\<close>.\<close>

datatype exn = Exn string (message: jsstring)

text \<open>\<open>ToBoolean\<close>: the test of \<open>if (v)\<close>, \<open>!v\<close> and \<open>v || d\<close>.\<close>

fun truthy :: "jsvalue \<Rightarrow> bool" where
  "truthy Undefined = False"
| "truthy Null = False"
| "truthy (Bool b) = b"
| "truthy (Number q) = (q \<noteq> 0)"
| "truthy (Str s) = (s \<noteq> [])"
| "truthy (Array xs) = True"
| "truthy (Object kvs) = True"
| "truthy Builtin = True"

text \<open>
  The property reads \<open>v.k\<close> of route.ts, for the four names it reads
  (\<open>error_description\<close>, \<open>access_token\<close>, \<open>expires_in\<close>, \<open>sub\<close>). Reading a
  property of \<open>null\<close> or \<open>undefined\<close> throws a TypeError (the text is V8's); a
  primitive or an array has none of the four as an own property, and among their
  prototypes only \<open>String.prototype\<close> has one of them, the method \<open>sub\<close>.
\<close>

definition cannot_read :: "string \<Rightarrow> string \<Rightarrow> exn" where
  "cannot_read v k =
     Exn ''TypeError'' (js ''Cannot read properties of '' @ js v @ js '' (reading '' @ [0x27] @ js k @ [0x27] @ js '')'')"

fun get_prop :: "jsvalue \<Rightarrow> string \<Rightarrow> exn + jsvalue" where
  "get_prop Undefined k = Inl (cannot_read ''undefined'' k)"
| "get_prop Null k = Inl (cannot_read ''null'' k)"
| "get_prop (Object kvs) k = Inr (case map_of kvs (js k) of None \<Rightarrow> Undefined | Some v \<Rightarrow> v)"
| "get_prop (Str s) k = Inr (if k = ''sub'' then Builtin else Undefined)"
| "get_prop (Bool b) k = Inr Undefined"
| "get_prop (Number q) k = Inr Undefined"
| "get_prop (Array xs) k = Inr Undefined"
| "get_prop Builtin k = Inr Undefined"

subsection \<open>encodeURIComponent\<close>

text \<open>
  ECMAScript's \<open>Encode\<close> with the unreserved set of \<open>encodeURIComponent\<close>: an unreserved
  code unit is copied; any other code point is written as the percent-escaped octets
  of its UTF-8 form; a surrogate code unit that is not half of a pair throws a
  URIError.
\<close>

definition uriUnescaped :: "16 word \<Rightarrow> bool" where
  "uriUnescaped c \<longleftrightarrow>
     (0x41 \<le> c \<and> c \<le> 0x5A) \<or> (0x61 \<le> c \<and> c \<le> 0x7A) \<or> (0x30 \<le> c \<and> c \<le> 0x39) \<or>
     c \<in> {0x2D, 0x5F, 0x2E, 0x21, 0x7E, 0x2A, 0x27, 0x28, 0x29}"

definition leading_surrogate :: "16 word \<Rightarrow> bool" where
  "leading_surrogate c \<longleftrightarrow> 0xD800 \<le> c \<and> c \<le> 0xDBFF"

definition trailing_surrogate :: "16 word \<Rightarrow> bool" where
  "trailing_surrogate c \<longleftrightarrow> 0xDC00 \<le> c \<and> c \<le> 0xDFFF"

definition code_point :: "16 word \<Rightarrow> 16 word \<Rightarrow> nat" where
  "code_point lead trail = (unat lead - 0xD800) * 0x400 + (unat trail - 0xDC00) + 0x10000"

definition utf8 :: "nat \<Rightarrow> nat list" where
  "utf8 cp =
     (if cp < 0x80 then [cp]
      else if cp < 0x800 then [0xC0 + cp div 64, 0x80 + cp mod 64]
      else if cp < 0x10000 then [0xE0 + cp div 4096, 0x80 + cp div 64 mod 64, 0x80 + cp mod 64]
      else [0xF0 + cp div 262144, 0x80 + cp div 4096 mod 64, 0x80 + cp div 64 mod 64, 0x80 + cp mod 64])"

definition percent :: "nat \<Rightarrow> jsstring" where
  "percent octet = [0x25, js ''0123456789ABCDEF'' ! (octet div 16), js ''0123456789ABCDEF'' ! (octet mod 16)]"

definition URIError :: exn where
  "URIError = Exn ''URIError'' (js ''URI malformed'')"

definition escaped :: "nat \<Rightarrow> exn + jsstring \<Rightarrow> exn + jsstring" where
  "escaped cp rest = map_sum id ((@) (concat (map percent (utf8 cp)))) rest"

fun encodeURIComponent :: "jsstring \<Rightarrow> exn + jsstring" where
  "encodeURIComponent [] = Inr []"
| "encodeURIComponent [c] =
     (if uriUnescaped c then Inr [c]
      else if leading_surrogate c \<or> trailing_surrogate c then Inl URIError
      else escaped (unat c) (Inr []))"
| "encodeURIComponent (c # d # cs) =
     (if uriUnescaped c then map_sum id ((#) c) (encodeURIComponent (d # cs))
      else if trailing_surrogate c then Inl URIError
      else if leading_surrogate c then
        (if trailing_surrogate d then escaped (code_point c d) (encodeURIComponent cs) else Inl URIError)
      else escaped (unat c) (encodeURIComponent (d # cs)))"

subsection \<open>Date\<close>

text \<open>
  A \<open>Date\<close> is its time value, milliseconds since the epoch in UTC, or \<open>None\<close> for an
  Invalid Date. \<open>getSeconds\<close> and \<open>setSeconds\<close> work on local time. The server's zone is
  \<open>tza\<close>, ECMAScript's \<open>LocalTZA(t, isUTC)\<close>: the offset of local time in milliseconds,
  at the time value \<open>t\<close> when \<open>isUTC\<close> is true and at the local time \<open>t\<close> when it is
  false.
\<close>

definition LocalTime :: "(int \<Rightarrow> bool \<Rightarrow> int) \<Rightarrow> int \<Rightarrow> int" where
  "LocalTime tza t = t + tza t True"

definition UTC :: "(int \<Rightarrow> bool \<Rightarrow> int) \<Rightarrow> int \<Rightarrow> int" where
  "UTC tza t = t - tza t False"

definition SecFromTime :: "int \<Rightarrow> int" where
  "SecFromTime t = t div 1000 mod 60"

definition getSeconds :: "(int \<Rightarrow> bool \<Rightarrow> int) \<Rightarrow> int \<Rightarrow> int" where
  "getSeconds tza t = SecFromTime (LocalTime tza t)"

definition ToIntegerOrInfinity :: "rat \<Rightarrow> int" where
  "ToIntegerOrInfinity q = (if q < 0 then \<lceil>q\<rceil> else \<lfloor>q\<rfloor>)"

definition TimeClip :: "int \<Rightarrow> int option" where
  "TimeClip t = (if \<bar>t\<bar> > 8640000000000000 then None else Some t)"

text \<open>
  \<open>setSeconds\<close> on a valid date; the argument \<open>None\<close> is \<open>NaN\<close> (or an infinity). The
  date is taken to local time, its seconds are replaced (\<open>MakeTime\<close>, \<open>MakeDate\<close>), and
  the result is taken back to UTC.
\<close>

definition setSeconds :: "(int \<Rightarrow> bool \<Rightarrow> int) \<Rightarrow> int \<Rightarrow> rat option \<Rightarrow> int option" where
  "setSeconds tza t sec =
     (case sec of
        None \<Rightarrow> None
      | Some q \<Rightarrow>
          TimeClip (UTC tza (LocalTime tza t - SecFromTime (LocalTime tza t) * 1000 + ToIntegerOrInfinity q * 1000)))"

text \<open>
  \<open>toISOString\<close> throws a RangeError on an Invalid Date. Its result, the ISO-8601 text
  of the time value, is represented by the time value itself (see \<open>IsoTime\<close> below).
\<close>

definition toISOString :: "int option \<Rightarrow> exn + int" where
  "toISOString d = (case d of None \<Rightarrow> Inl (Exn ''RangeError'' (js ''Invalid time value'')) | Some t \<Rightarrow> Inr t)"

section \<open>src/lib/linkedin.ts\<close>

record config =
  clientId :: jsstring
  redirectUri :: jsstring
  scopes :: "jsstring list"

definition LINKEDIN_CONFIG :: config where
  "LINKEDIN_CONFIG =
     \<lparr>clientId = js ''86j7ddjv9w7b8m'',
      redirectUri = js ''http://localhost:3000/api/linkedin/callback'',
      scopes = [js ''openid'', js ''profile'', js ''email'', js ''w_member_social'']\<rparr>"

subsection \<open>The platform functions the builder calls\<close>

text \<open>
  \<open>String.prototype.substring\<close> with both indices within \<open>0 \<le> start \<le> stop\<close>: the
  indices are clamped to the length of the string.
\<close>

definition substring :: "nat \<Rightarrow> nat \<Rightarrow> jsstring \<Rightarrow> jsstring" where
  "substring start stop s = take (stop - start) (drop start s)"

text \<open>
  \<open>JSON.stringify\<close> on an object with the two string properties \<open>userId\<close> and \<open>nonce\<close>,
  in that order and without a gap. \<open>QuoteJSONString\<close> is ECMAScript's: the short escapes,
  \<open>\uXXXX\<close> in lower-case hexadecimal for the other control characters and for a surrogate
  that has no partner, every other code unit as it is.
\<close>

definition hex :: "nat \<Rightarrow> 16 word" where
  "hex n = js ''0123456789abcdef'' ! n"

definition UnicodeEscape :: "16 word \<Rightarrow> jsstring" where
  "UnicodeEscape c =
     [0x5C, 0x75, hex (unat c div 4096), hex (unat c div 256 mod 16), hex (unat c div 16 mod 16), hex (unat c mod 16)]"

definition quote_unit :: "16 word \<Rightarrow> jsstring" where
  "quote_unit c =
     (if c = 0x08 then [0x5C, 0x62]
      else if c = 0x09 then [0x5C, 0x74]
      else if c = 0x0A then [0x5C, 0x6E]
      else if c = 0x0C then [0x5C, 0x66]
      else if c = 0x0D then [0x5C, 0x72]
      else if c = 0x22 then [0x5C, 0x22]
      else if c = 0x5C then [0x5C, 0x5C]
      else if c < 0x20 then UnicodeEscape c
      else [c])"

fun quoted :: "jsstring \<Rightarrow> jsstring" where
  "quoted [] = []"
| "quoted [c] = (if leading_surrogate c \<or> trailing_surrogate c then UnicodeEscape c else quote_unit c)"
| "quoted (c # d # cs) =
     (if leading_surrogate c \<and> trailing_surrogate d then c # d # quoted cs
      else if leading_surrogate c \<or> trailing_surrogate c then UnicodeEscape c @ quoted (d # cs)
      else quote_unit c @ quoted (d # cs))"

definition QuoteJSONString :: "jsstring \<Rightarrow> jsstring" where
  "QuoteJSONString s = 0x22 # quoted s @ [0x22]"

definition JSON_stringify :: "jsstring \<Rightarrow> jsstring \<Rightarrow> jsstring" where
  "JSON_stringify userId nonce =
     js ''{'' @ QuoteJSONString (js ''userId'') @ js '':'' @ QuoteJSONString userId @ js '',''
       @ QuoteJSONString (js ''nonce'') @ js '':'' @ QuoteJSONString nonce @ js ''}''"

text \<open>
  \<open>btoa\<close>: an \<open>InvalidCharacterError\<close> when a code unit of the argument is above
  \<open>0xFF\<close>, else the base64 text (RFC 4648, with padding) of the code units taken as bytes.
\<close>

definition base64_digit :: "nat \<Rightarrow> 16 word" where
  "base64_digit n = js ''ABCDEFGHIJKLMNOPQRSTUVWXYZabcdefghijklmnopqrstuvwxyz0123456789+/'' ! n"

fun sextets :: "nat list \<Rightarrow> nat list" where
  "sextets (a # b # c # bs) = [a div 4, a mod 4 * 16 + b div 16, b mod 16 * 4 + c div 64, c mod 64] @ sextets bs"
| "sextets [a, b] = [a div 4, a mod 4 * 16 + b div 16, b mod 16 * 4]"
| "sextets [a] = [a div 4, a mod 4 * 16]"
| "sextets [] = []"

definition base64 :: "nat list \<Rightarrow> jsstring" where
  "base64 bs = map base64_digit (sextets bs) @ replicate ((3 - length bs mod 3) mod 3) 0x3D"

definition InvalidCharacterError :: exn where
  "InvalidCharacterError = Exn ''InvalidCharacterError'' (js ''Invalid character'')"

definition btoa :: "jsstring \<Rightarrow> exn + jsstring" where
  "btoa s = (if \<exists>c \<in> set s. 0xFF < c then Inl InvalidCharacterError else Inr (base64 (map unat s)))"

text \<open>
  The query of a URL after \<open>searchParams.append\<close>: the \<open>application/x-www-form-urlencoded\<close>
  serialisation of the pairs. A string is taken to UTF-8 (a surrogate without a partner as
  \<open>U+FFFD\<close>), a space becomes \<open>+\<close>, letters, digits and \<open>* - . _\<close> stay, and every other
  byte is percent-encoded.
\<close>

fun usv_utf8 :: "jsstring \<Rightarrow> nat list" where
  "usv_utf8 [] = []"
| "usv_utf8 [c] = (if leading_surrogate c \<or> trailing_surrogate c then utf8 0xFFFD else utf8 (unat c))"
| "usv_utf8 (c # d # cs) =
     (if leading_surrogate c \<and> trailing_surrogate d then utf8 (code_point c d) @ usv_utf8 cs
      else if leading_surrogate c \<or> trailing_surrogate c then utf8 0xFFFD @ usv_utf8 (d # cs)
      else utf8 (unat c) @ usv_utf8 (d # cs))"

definition form_byte :: "nat \<Rightarrow> jsstring" where
  "form_byte b =
     (if b = 0x20 then [0x2B]
      else if (0x30 \<le> b \<and> b \<le> 0x39) \<or> (0x41 \<le> b \<and> b \<le> 0x5A) \<or> (0x61 \<le> b \<and> b \<le> 0x7A)
              \<or> b \<in> {0x2A, 0x2D, 0x2E, 0x5F} then [word_of_nat b]
      else percent b)"

definition form_encode :: "jsstring \<Rightarrow> jsstring" where
  "form_encode s = concat (map form_byte (usv_utf8 s))"

fun urlencoded :: "(jsstring \<times> jsstring) list \<Rightarrow> jsstring" where
  "urlencoded [] = []"
| "urlencoded [(k, v)] = form_encode k @ [0x3D] @ form_encode v"
| "urlencoded ((k, v) # p # ps) = form_encode k @ [0x3D] @ form_encode v @ [0x26] @ urlencoded (p # ps)"

text \<open>\<open>Array.prototype.join\<close> on an array of strings.\<close>

fun join :: "jsstring \<Rightarrow> jsstring list \<Rightarrow> jsstring" where
  "join sep [] = []"
| "join sep [x] = x"
| "join sep (x # y # xs) = x @ sep @ join sep (y # xs)"

subsection \<open>generateLinkedInAuthUrl\<close>

text \<open>
  Lines 9-26. The first argument is the text that \<open>Math.random().toString(36)\<close> gives in
  this call: \<open>0.\<close> followed by digits of radix 36, and \<open>0\<close> alone when the number drawn
  is zero. The nonce is what \<open>substring(2, 15)\<close> leaves of it. The address parsed by
  \<open>new URL\<close> has no query, so that \<open>toString\<close> gives it back followed by \<open>?\<close> and the
  serialised parameters. \<open>btoa\<close> may throw, and the function has no \<open>try\<close>.
\<close>

definition generateLinkedInAuthUrl :: "jsstring \<Rightarrow> jsstring \<Rightarrow> exn + jsstring" where
  "generateLinkedInAuthUrl random36 userId =
     (let statePayload = JSON_stringify userId (substring 2 15 random36)
      in case btoa statePayload of
           Inl x \<Rightarrow> Inl x
         | Inr state \<Rightarrow>
             Inr (js ''https://www.linkedin.com/oauth/v2/authorization'' @ js ''?''
                  @ urlencoded
                      [(js ''response_type'', js ''code''),
                       (js ''client_id'', clientId LINKEDIN_CONFIG),
                       (js ''redirect_uri'', redirectUri LINKEDIN_CONFIG),
                       (js ''state'', state),
                       (js ''scope'', join (js '' '') (scopes LINKEDIN_CONFIG))]))"

subsection \<open>Reading the state back\<close>

text \<open>
  No file of the repository decodes the state. To read a state back is to undo the three
  steps of the builder with the platform's own inverse functions: \<open>URLSearchParams.get\<close> on
  the query of the URL, \<open>atob\<close> on the parameter, and \<open>JSON.parse\<close> on the payload.

  \<open>atob\<close> (the forgiving base64 decoding): ASCII whitespace is dropped, one or two
  \<open>=\<close> at the end of a text whose length is a multiple of four are dropped, and what is
  left must consist of base64 digits and have a length that is not 1 modulo 4.
\<close>

definition base64_value :: "16 word \<Rightarrow> nat option" where
  "base64_value c =
     (if 0x41 \<le> c \<and> c \<le> 0x5A then Some (unat c - 0x41)
      else if 0x61 \<le> c \<and> c \<le> 0x7A then Some (unat c - 0x61 + 26)
      else if 0x30 \<le> c \<and> c \<le> 0x39 then Some (unat c - 0x30 + 52)
      else if c = 0x2B then Some 62
      else if c = 0x2F then Some 63
      else None)"

fun octets :: "nat list \<Rightarrow> nat list" where
  "octets (p # q # r # s # ds) = [p * 4 + q div 16, q mod 16 * 16 + r div 4, r mod 4 * 64 + s] @ octets ds"
| "octets [p, q, r] = [p * 4 + q div 16, q mod 16 * 16 + r div 4]"
| "octets [p, q] = [p * 4 + q div 16]"
| "octets [p] = []"
| "octets [] = []"

definition strip_padding :: "jsstring \<Rightarrow> jsstring" where
  "strip_padding s =
     (if length s mod 4 = 0 then
        (if suffix [0x3D, 0x3D] s then butlast (butlast s)
         else if suffix [0x3D] s then butlast s
         else s)
      else s)"

definition atob :: "jsstring \<Rightarrow> exn + jsstring" where
  "atob s =
     (let t = strip_padding (filter (\<lambda>c. c \<notin> {0x09, 0x0A, 0x0C, 0x0D, 0x20}) s)
      in if length t mod 4 = 1 then Inl InvalidCharacterError
         else case those (map base64_value t) of
                None \<Rightarrow> Inl InvalidCharacterError
              | Some ds \<Rightarrow> Inr (map word_of_nat (octets ds)))"

text \<open>
  \<open>JSON.parse\<close> on the texts of the form \<open>{"userId":"...","nonce":"..."}\<close>, every other
  text being refused here: \<open>string_literal\<close> reads a JSON string after its opening quote
  and returns its value and the rest of the text.
\<close>

definition hex_value :: "16 word \<Rightarrow> nat option" where
  "hex_value c =
     (if 0x30 \<le> c \<and> c \<le> 0x39 then Some (unat c - 0x30)
      else if 0x41 \<le> c \<and> c \<le> 0x46 then Some (unat c - 0x41 + 10)
      else if 0x61 \<le> c \<and> c \<le> 0x66 then Some (unat c - 0x61 + 10)
      else None)"

definition unescape :: "16 word \<Rightarrow> 16 word option" where
  "unescape c =
     (if c = 0x22 then Some 0x22
      else if c = 0x5C then Some 0x5C
      else if c = 0x2F then Some 0x2F
      else if c = 0x62 then Some 0x08
      else if c = 0x66 then Some 0x0C
      else if c = 0x6E then Some 0x0A
      else if c = 0x72 then Some 0x0D
      else if c = 0x74 then Some 0x09
      else None)"

definition hex4 :: "16 word \<Rightarrow> 16 word \<Rightarrow> 16 word \<Rightarrow> 16 word \<Rightarrow> 16 word option" where
  "hex4 a b c d =
     (case (hex_value a, hex_value b, hex_value c, hex_value d) of
        (Some p, Some q, Some r, Some s) \<Rightarrow> Some (word_of_nat (p * 4096 + q * 256 + r * 16 + s))
      | _ \<Rightarrow> None)"

definition followed :: "16 word \<Rightarrow> (jsstring \<times> jsstring) option \<Rightarrow> (jsstring \<times> jsstring) option" where
  "followed c r = map_option (\<lambda>(s, rest). (c # s, rest)) r"

fun string_literal :: "jsstring \<Rightarrow> (jsstring \<times> jsstring) option" where
  "string_literal [] = None"
| "string_literal (c # cs) =
     (if c = 0x22 then Some ([], cs)
      else if c = 0x5C then
        (case cs of
           [] \<Rightarrow> None
         | e # es \<Rightarrow>
             if e = 0x75 then
               (case es of
                  h1 # h2 # h3 # h4 # rest \<Rightarrow>
                    (case hex4 h1 h2 h3 h4 of
                       None \<Rightarrow> None
                     | Some u \<Rightarrow> followed u (string_literal rest))
                | _ \<Rightarrow> None)
             else
               (case unescape e of
                  None \<Rightarrow> None
                | Some u \<Rightarrow> followed u (string_literal es)))
      else if c < 0x20 then None
      else followed c (string_literal cs))"

definition strip_prefix :: "jsstring \<Rightarrow> jsstring \<Rightarrow> jsstring option" where
  "strip_prefix p s = (if prefix p s then Some (drop (length p) s) else None)"

definition parse_state :: "jsstring \<Rightarrow> (jsstring \<times> jsstring) option" where
  "parse_state s =
     (case strip_prefix (js ''{'' @ [0x22] @ js ''userId'' @ [0x22] @ js '':'' @ [0x22]) s of
        None \<Rightarrow> None
      | Some s1 \<Rightarrow>
          (case string_literal s1 of
             None \<Rightarrow> None
           | Some (userId, s2) \<Rightarrow>
               (case strip_prefix (js '','' @ [0x22] @ js ''nonce'' @ [0x22] @ js '':'' @ [0x22]) s2 of
                  None \<Rightarrow> None
                | Some s3 \<Rightarrow>
                    (case string_literal s3 of
                       None \<Rightarrow> None
                     | Some (nonce, s4) \<Rightarrow> if s4 = js ''}'' then Some (userId, nonce) else None))))"

text \<open>
  \<open>URLSearchParams.get\<close> on the query of a URL: the fragment is cut off at the first
  \<open>#\<close>, the query is what follows the first \<open>?\<close> of the rest, and it is split at \<open>&\<close>,
  each part at its first \<open>=\<close>; \<open>+\<close> is a space and \<open>%XX\<close> a byte. A name or value with a
  byte outside ASCII is \<open>None\<close> here.
\<close>

fun percent_decode :: "jsstring \<Rightarrow> nat list" where
  "percent_decode (c # h # l # cs) =
     (if c = 0x25 then
        (case (hex_value h, hex_value l) of
           (Some a, Some b) \<Rightarrow> (a * 16 + b) # percent_decode cs
         | _ \<Rightarrow> unat c # percent_decode (h # l # cs))
      else unat c # percent_decode (h # l # cs))"
| "percent_decode (c # cs) = unat c # percent_decode cs"
| "percent_decode [] = []"

definition plus_to_space :: "jsstring \<Rightarrow> jsstring" where
  "plus_to_space s = map (\<lambda>c. if c = 0x2B then 0x20 else c) s"

definition form_decode :: "jsstring \<Rightarrow> jsstring option" where
  "form_decode s =
     (let bytes = percent_decode (plus_to_space s)
      in if \<forall>b \<in> set bytes. b < 0x80 then Some (map word_of_nat bytes) else None)"

fun split_on :: "16 word \<Rightarrow> jsstring \<Rightarrow> jsstring list" where
  "split_on sep [] = [[]]"
| "split_on sep (c # cs) =
     (if c = sep then [] # split_on sep cs
      else (case split_on sep cs of [] \<Rightarrow> [[c]] | x # xs \<Rightarrow> (c # x) # xs))"

definition name_value :: "jsstring \<Rightarrow> jsstring option \<times> jsstring option" where
  "name_value s =
     (form_decode (takeWhile (\<lambda>c. c \<noteq> 0x3D) s), form_decode (drop 1 (dropWhile (\<lambda>c. c \<noteq> 0x3D) s)))"

definition query_pairs :: "jsstring \<Rightarrow> (jsstring option \<times> jsstring option) list" where
  "query_pairs url =
     map name_value
       (filter (\<lambda>s. s \<noteq> [])
          (split_on 0x26 (drop 1 (dropWhile (\<lambda>c. c \<noteq> 0x3F) (takeWhile (\<lambda>c. c \<noteq> 0x23) url)))))"

definition searchParams_get :: "jsstring \<Rightarrow> jsstring \<Rightarrow> jsstring option" where
  "searchParams_get url name =
     (case filter (\<lambda>(k, v). k = Some name) (query_pairs url) of
        [] \<Rightarrow> None
      | (k, v) # _ \<Rightarrow> v)"

text \<open>
  Modelled from the spec: the decoding of the state token, which no file of the repository
  performs. The state parameter of the URL is read, decoded from base64 and parsed, giving
  the user id and the nonce.
\<close>

definition decode_state :: "jsstring \<Rightarrow> (jsstring \<times> jsstring) option" where
  "decode_state url =
     (case searchParams_get url (js ''state'') of
        None \<Rightarrow> None
      | Some state \<Rightarrow> (case atob state of Inl _ \<Rightarrow> None | Inr statePayload \<Rightarrow> parse_state statePayload))"

section \<open>src/app/api/linkedin/callback/route.ts\<close>

subsection \<open>What the handler talks to\<close>

text \<open>The \<open>Response\<close> of a \<open>fetch\<close>: its \<open>ok\<close> flag and what \<open>json()\<close> resolves to or throws.\<close>

record response =
  ok :: bool
  json :: "exn + jsvalue"

text \<open>
  A value sent to the store: a JavaScript value, or the text \<open>toISOString()\<close> returns
  for a time value.
\<close>

datatype cell = Val jsvalue | IsoTime int

type_synonym fields = "(jsstring \<times> cell) list"

type_synonym row = "jsstring \<Rightarrow> cell option"

text \<open>
  Everything outside route.ts that an invocation depends on. The remote endpoints
  answer the request they are sent; each call may throw instead of answering.
  \<^item> \<open>LINKEDIN_CLIENT_ID\<close>, \<open>LINKEDIN_CLIENT_SECRET\<close>: \<open>process.env\<close>, \<open>None\<close> when unset.
  \<^item> \<open>createClient\<close>: what \<open>createClient(SUPABASE_URL, SUPABASE_SERVICE_ROLE_KEY)\<close>
    throws, if it throws.
  \<^item> \<open>token_endpoint\<close>: the POST to \<open>/oauth/v2/accessToken\<close>, given the form body.
  \<^item> \<open>userinfo_endpoint\<close>: the GET of \<open>/v2/userinfo\<close>, given the \<open>Authorization\<close> header.
  \<^item> \<open>clock\<close>: the time value of \<open>new Date()\<close>.
  \<^item> \<open>LocalTZA\<close>: the zone of the server, as \<open>getSeconds\<close> and \<open>setSeconds\<close> take it.
  \<^item> \<open>getUser\<close>: the id of \<open>data.user\<close> from \<open>supabase.auth.getUser()\<close>, \<open>None\<close> for
    \<open>null\<close>.
  \<^item> \<open>dbError\<close>: the \<open>error\<close> the store returns for an update, \<open>None\<close> for \<open>null\<close>.
  \<^item> \<open>ToString_other\<close>: \<open>ToString\<close> of a number, an array, an object or a function
    (it can throw: an object's own \<open>toString\<close> and \<open>valueOf\<close> may not be callable).
  \<^item> \<open>plus_other\<close>: the Number that \<open>setSeconds\<close> makes of \<open>seconds + v\<close> when \<open>v\<close> is a
    string, an array, an object or a function (a string concatenation), \<open>None\<close> for
    \<open>NaN\<close> or an infinity.
  \<^item> \<open>double_sum\<close>: the double that \<open>seconds + v\<close> is rounded to when \<open>v\<close> is a Number
    that is not an integer.
  The last three are the runtime's, reached only when the provider's data is not what
  the handler expects; every theorem holds whatever they compute.
\<close>

record env =
  LINKEDIN_CLIENT_ID :: "jsstring option"
  LINKEDIN_CLIENT_SECRET :: "jsstring option"
  createClient :: "exn option"
  token_endpoint :: "(jsstring \<times> jsstring) list \<Rightarrow> exn + response"
  userinfo_endpoint :: "jsstring \<Rightarrow> exn + response"
  clock :: int
  LocalTZA :: "int \<Rightarrow> bool \<Rightarrow> int"
  getUser :: "exn + jsstring option"
  dbError :: "fields \<Rightarrow> jsstring \<Rightarrow> exn option"
  ToString_other :: "jsvalue \<Rightarrow> exn + jsstring"
  plus_other :: "int \<Rightarrow> jsvalue \<Rightarrow> exn + rat option"
  double_sum :: "int \<Rightarrow> rat \<Rightarrow> rat"

text \<open>What an invocation does to the outside, in order.\<close>

datatype event =
    Fetch_accessToken "(jsstring \<times> jsstring) list"
  | Fetch_userinfo jsstring
  | GetUser
  | Update fields jsstring jsstring
  | Warn
  | ConsoleError exn

text \<open>The outside the handler acts on: the calls made so far and the \<open>profiles\<close> table.\<close>

record world =
  trace :: "event list"
  profiles :: "row list"

definition emit :: "event \<Rightarrow> world \<Rightarrow> world" where
  "emit ev w = w\<lparr>trace := trace w @ [ev]\<rparr>"

text \<open>
  Modelled from the spec: the persistent user-profile store, which is not part of the
  repository. \<open>update(values).eq(column, x)\<close> sets the columns named in \<open>values\<close> on
  every row whose \<open>column\<close> holds \<open>x\<close> and creates no row. The client sends \<open>values\<close> as
  JSON, which leaves out a property whose value is \<open>undefined\<close> or a function.
\<close>

definition sent :: "fields \<Rightarrow> fields" where
  "sent values = filter (\<lambda>(k, v). v \<noteq> Val Undefined \<and> v \<noteq> Val Builtin) values"

definition update_eq :: "fields \<Rightarrow> jsstring \<Rightarrow> jsstring \<Rightarrow> row list \<Rightarrow> row list" where
  "update_eq values column x rows =
     map (\<lambda>r. if r column = Some (Val (Str x)) then r ++ map_of (sent values) else r) rows"

subsection \<open>Conversions the handler applies\<close>

text \<open>A query parameter is a string or \<open>null\<close>: \<open>present\<close> is its truthiness, \<open>template\<close> its text in a template literal.\<close>

definition present :: "jsstring option \<Rightarrow> bool" where
  "present v = (case v of None \<Rightarrow> False | Some s \<Rightarrow> s \<noteq> [])"

definition template :: "jsstring option \<Rightarrow> jsstring" where
  "template v = (case v of None \<Rightarrow> js ''null'' | Some s \<Rightarrow> s)"

text \<open>An unset environment variable becomes the text \<open>undefined\<close> in \<open>URLSearchParams\<close>.\<close>

definition env_text :: "jsstring option \<Rightarrow> jsstring" where
  "env_text v = (case v of None \<Rightarrow> js ''undefined'' | Some s \<Rightarrow> s)"

definition ToString :: "env \<Rightarrow> jsvalue \<Rightarrow> exn + jsstring" where
  "ToString e v =
     (case v of
        Str s \<Rightarrow> Inr s
      | Undefined \<Rightarrow> Inr (js ''undefined'')
      | Null \<Rightarrow> Inr (js ''null'')
      | Bool b \<Rightarrow> Inr (if b then js ''true'' else js ''false'')
      | _ \<Rightarrow> ToString_other e v)"

text \<open>
  \<open>seconds + v\<close> as \<open>setSeconds\<close> receives it. The sum of two Numbers is a sum of
  doubles. For an integer \<open>v\<close> it is taken exact, as it is below \<open>2^53\<close>; from there on
  the double is a neighbour of the exact sum, and either is a number of seconds that
  takes a clock reading out of the range of \<open>TimeClip\<close>. For another \<open>v\<close> it is what
  the runtime rounds to.
\<close>

definition plus :: "env \<Rightarrow> int \<Rightarrow> jsvalue \<Rightarrow> exn + rat option" where
  "plus e seconds v =
     (case v of
        Undefined \<Rightarrow> Inr None
      | Null \<Rightarrow> Inr (Some (of_int seconds))
      | Bool b \<Rightarrow> Inr (Some (of_int seconds + (if b then 1 else 0)))
      | Number q \<Rightarrow> Inr (Some (if of_int \<lfloor>q\<rfloor> = q then of_int seconds + q else double_sum e seconds q))
      | _ \<Rightarrow> plus_other e seconds v)"

subsection \<open>The handler\<close>

text \<open>The form body of the token request (lines 40-46).\<close>

definition token_request :: "env \<Rightarrow> jsstring \<Rightarrow> jsstring \<Rightarrow> (jsstring \<times> jsstring) list" where
  "token_request e origin code =
     [(js ''grant_type'', js ''authorization_code''),
      (js ''code'', code),
      (js ''client_id'', env_text (LINKEDIN_CLIENT_ID e)),
      (js ''client_secret'', env_text (LINKEDIN_CLIENT_SECRET e)),
      (js ''redirect_uri'', origin @ js ''/api/linkedin/callback'')]"

text \<open>The object passed to \<open>update\<close> (lines 76-81).\<close>

definition connection :: "jsvalue \<Rightarrow> jsvalue \<Rightarrow> int \<Rightarrow> fields" where
  "connection accessToken linkedinId expiresAt =
     [(js ''linkedin_token'', Val accessToken),
      (js ''linkedin_profile_id'', Val linkedinId),
      (js ''linkedin_connected'', Val (Bool True)),
      (js ''linkedin_token_expires_at'', IsoTime expiresAt)]"

text \<open>
  Steps 4 and 5 (lines 71-91): resolve the user, update the profile, redirect. The
  result is \<open>Inr url\<close> for \<open>return NextResponse.redirect(url)\<close> and \<open>Inl x\<close> for a throw.
\<close>

definition persist ::
  "env \<Rightarrow> jsstring \<Rightarrow> jsvalue \<Rightarrow> jsvalue \<Rightarrow> int option \<Rightarrow> world \<Rightarrow> (exn + jsstring) \<times> world" where
  "persist e origin accessToken linkedinId expiresAt w =
     (case getUser e of
        Inl x \<Rightarrow> (Inl x, emit GetUser w)
      | Inr None \<Rightarrow> (Inr (origin @ js ''/#/app/settings?success=true''), emit Warn (emit GetUser w))
      | Inr (Some uid) \<Rightarrow>
          (case toISOString expiresAt of
             Inl x \<Rightarrow> (Inl x, emit GetUser w)
           | Inr t \<Rightarrow>
               (let values = connection accessToken linkedinId t;
                    w' = emit (Update values (js ''user_id'') uid) (emit GetUser w)
                in case dbError e values uid of
                     Some x \<Rightarrow> (Inl x, w')
                   | None \<Rightarrow>
                       (Inr (origin @ js ''/#/app/settings?success=true''),
                        w'\<lparr>profiles := update_eq values (js ''user_id'') uid (profiles w')\<rparr>))))"

text \<open>Step 3 and the expiry (lines 58-68).\<close>

definition fetch_profile ::
  "env \<Rightarrow> jsstring \<Rightarrow> jsvalue \<Rightarrow> jsvalue \<Rightarrow> world \<Rightarrow> (exn + jsstring) \<times> world" where
  "fetch_profile e origin accessToken expiresIn w =
     (case ToString e accessToken of
        Inl x \<Rightarrow> (Inl x, w)
      | Inr token \<Rightarrow>
          (let w' = emit (Fetch_userinfo (js ''Bearer '' @ token)) w
           in case userinfo_endpoint e (js ''Bearer '' @ token) of
                Inl x \<Rightarrow> (Inl x, w')
              | Inr profileResponse \<Rightarrow>
                  (case json profileResponse of
                     Inl x \<Rightarrow> (Inl x, w')
                   | Inr profileData \<Rightarrow>
                       (case get_prop profileData ''sub'' of
                          Inl x \<Rightarrow> (Inl x, w')
                        | Inr linkedinId \<Rightarrow>
                            (case plus e (getSeconds (LocalTZA e) (clock e)) expiresIn of
                               Inl x \<Rightarrow> (Inl x, w')
                             | Inr sec \<Rightarrow>
                                 persist e origin accessToken linkedinId (setSeconds (LocalTZA e) (clock e) sec) w')))))"

text \<open>Step 2 (lines 37-55).\<close>

definition exchange :: "env \<Rightarrow> jsstring \<Rightarrow> jsstring \<Rightarrow> world \<Rightarrow> (exn + jsstring) \<times> world" where
  "exchange e origin code w =
     (let w' = emit (Fetch_accessToken (token_request e origin code)) w
      in case token_endpoint e (token_request e origin code) of
           Inl x \<Rightarrow> (Inl x, w')
         | Inr tokenResponse \<Rightarrow>
             (case json tokenResponse of
                Inl x \<Rightarrow> (Inl x, w')
              | Inr tokenData \<Rightarrow>
                  if \<not> ok tokenResponse then
                    (case get_prop tokenData ''error_description'' of
                       Inl x \<Rightarrow> (Inl x, w')
                     | Inr d \<Rightarrow>
                         (case ToString e (if truthy d then d else Str (js ''LinkedIn token exchange failed'')) of
                            Inl x \<Rightarrow> (Inl x, w')
                          | Inr m \<Rightarrow> (Inl (Exn ''Error'' m), w')))
                  else
                    (case get_prop tokenData ''access_token'' of
                       Inl x \<Rightarrow> (Inl x, w')
                     | Inr accessToken \<Rightarrow>
                         (case get_prop tokenData ''expires_in'' of
                            Inl x \<Rightarrow> (Inl x, w')
                          | Inr expiresIn \<Rightarrow> fetch_profile e origin accessToken expiresIn w'))))"

text \<open>The body of \<open>try\<close> (lines 29-91).\<close>

definition try_block :: "env \<Rightarrow> jsstring \<Rightarrow> jsstring \<Rightarrow> world \<Rightarrow> (exn + jsstring) \<times> world" where
  "try_block e origin code w =
     (case createClient e of
        Some x \<Rightarrow> (Inl x, w)
      | None \<Rightarrow> exchange e origin code w)"

text \<open>The \<open>catch\<close> clause (lines 93-96).\<close>

definition catch_block :: "jsstring \<Rightarrow> exn \<Rightarrow> world \<Rightarrow> (exn + jsstring) \<times> world" where
  "catch_block origin err w =
     (case encodeURIComponent (message err) of
        Inl x \<Rightarrow> (Inl x, emit (ConsoleError err) w)
      | Inr msg \<Rightarrow>
          (Inr (origin @ js ''/#/app/settings?error=exchange_failed&msg='' @ msg), emit (ConsoleError err) w))"

text \<open>
  \<open>GET\<close> (lines 13-97), given the \<open>origin\<close> and the \<open>searchParams\<close> of the request's URL;
  \<open>searchParams.get\<close> is the first value under the name.
\<close>

definition GET :: "env \<Rightarrow> jsstring \<Rightarrow> (jsstring \<times> jsstring) list \<Rightarrow> world \<Rightarrow> (exn + jsstring) \<times> world" where
  "GET e origin searchParams w =
     (let code = map_of searchParams (js ''code'');
          error = map_of searchParams (js ''error'')
      in if present error then
           (Inr (origin @ js ''/#/app/settings?error='' @ template error @ js ''&msg=''
                   @ template (map_of searchParams (js ''error_description''))), w)
         else if \<not> present code then (Inr (origin @ js ''/#/app/settings?error=missing_code''), w)
         else
           (case try_block e origin (template code) w of
              (Inr url, w') \<Rightarrow> (Inr url, w')
            | (Inl err, w') \<Rightarrow> catch_block origin err w'))"

section \<open>A sample deployment\<close>

text \<open>
  One provider, store and session to run the handler on: the token endpoint grants
  the token \<open>T\<close> for an hour, the profile has the subject \<open>ext-123\<close>, the session
  belongs to the user \<open>U\<close>, the server keeps UTC, and the table holds a row of \<open>U\<close> and
  a row of \<open>V\<close>.
\<close>

definition granted :: response where
  "granted = \<lparr>ok = True, json = Inr (Object [(js ''access_token'', Str (js ''T'')), (js ''expires_in'', Number 3600)])\<rparr>"

definition userinfo :: response where
  "userinfo = \<lparr>ok = True, json = Inr (Object [(js ''sub'', Str (js ''ext-123''))])\<rparr>"

definition sample :: env where
  "sample =
     \<lparr>LINKEDIN_CLIENT_ID = Some (js ''86j7ddjv9w7b8m''),
      LINKEDIN_CLIENT_SECRET = Some (js ''s3cret''),
      createClient = None,
      token_endpoint = (\<lambda>body. Inr granted),
      userinfo_endpoint = (\<lambda>authorization. Inr userinfo),
      clock = 1700000000123,
      LocalTZA = (\<lambda>t isUTC. 0),
      getUser = Inr (Some (js ''U'')),
      dbError = (\<lambda>values uid. None),
      ToString_other = (\<lambda>v. Inr (js ''[object Object]'')),
      plus_other = (\<lambda>seconds v. Inr None),
      double_sum = (\<lambda>seconds q. of_int seconds + q)\<rparr>"

text \<open>
  The one sum of a Number that is not an integer in the runs below is \<open>20 + 1800.5\<close>,
  which is a double: \<open>double_sum\<close> gives it.
\<close>

definition row_U :: row where
  "row_U = [js ''user_id'' \<mapsto> Val (Str (js ''U'')), js ''full_name'' \<mapsto> Val (Str (js ''Uma''))]"

definition row_V :: row where
  "row_V = [js ''user_id'' \<mapsto> Val (Str (js ''V'')), js ''linkedin_connected'' \<mapsto> Val (Bool False)]"

definition before :: world where
  "before = \<lparr>trace = [], profiles = [row_U, row_V]\<rparr>"

definition callback :: "(jsstring \<times> jsstring) list" where
  "callback = [(js ''code'', js ''abc''), (js ''state'', js ''xyz'')]"

text \<open>Variations of the sample deployment.\<close>




text \<open>The profile endpoint answers 200 with an empty object.\<close>

definition subless :: env where
  "subless = sample\<lparr>userinfo_endpoint := (\<lambda>authorization. Inr \<lparr>ok = True, json = Inr (Object [])\<rparr>)\<rparr>"

text \<open>The profile endpoint answers with a body that is not JSON.\<close>

definition garbled :: env where
  "garbled = sample
     \<lparr>userinfo_endpoint := (\<lambda>authorization.
         Inr \<lparr>ok = False, json = Inl (Exn ''SyntaxError'' (js ''Unexpected token < in JSON at position 0''))\<rparr>)\<rparr>"


text \<open>The same, the \<open>error_description\<close> being the JSON string \<open>"\ud800"\<close>: one unpaired surrogate.\<close>

definition unpaired :: env where
  "unpaired = sample
     \<lparr>token_endpoint := (\<lambda>body.
         Inr \<lparr>ok = False, json = Inr (Object [(js ''error_description'', Str [0xD800])])\<rparr>)\<rparr>"

text \<open>The profile request fails with an error whose message is one unpaired surrogate.\<close>

definition interrupted :: env where
  "interrupted = sample\<lparr>userinfo_endpoint := (\<lambda>authorization. Inl (Exn ''Error'' [0xD83D]))\<rparr>"




text \<open>Nobody is signed in.\<close>

definition anonymous :: env where
  "anonymous = sample\<lparr>getUser := Inr None\<rparr>"

section \<open>Strings\<close>

lemma unat_code_unit: "unat (word_of_nat (of_char c) :: 16 word) = of_char c"
proof -
  have "(of_char c :: nat) < 256"
    by simp
  also have "(256 :: nat) < 2 ^ 16"
    by simp
  finally show ?thesis
    by (simp add: unat_of_nat)
qed

lemma js_eq_iff [simp]: "js a = js b \<longleftrightarrow> a = b"
proof -
  have "inj (\<lambda>c. word_of_nat (of_char c) :: 16 word)"
  proof (rule injI)
    fix a b :: char
    assume "(word_of_nat (of_char a) :: 16 word) = word_of_nat (of_char b)"
    then have "unat (word_of_nat (of_char a) :: 16 word) = unat (word_of_nat (of_char b) :: 16 word)"
      by simp
    then have "(of_char a :: nat) = of_char b"
      by (simp only: unat_code_unit)
    then show "a = b"
      by simp
  qed
  then show ?thesis
    unfolding js_def by (rule inj_map_eq_map)
qed

lemma js_Nil_iff [simp]: "js s = [] \<longleftrightarrow> s = []"
  by (simp add: js_def)

lemma sublist_js: "sublist (js m) (xs @ js (p @ m @ s) @ ys)"
proof -
  have "xs @ js (p @ m @ s) @ ys = (xs @ js p) @ js m @ (js s @ ys)"
    by (simp add: js_def)
  then show ?thesis
    by (simp only: sublist_appendI)
qed

section \<open>Dates\<close>

lemma ToIntegerOrInfinity_of_int [simp]: "ToIntegerOrInfinity (of_int a + of_int n) = a + n"
proof -
  have "ToIntegerOrInfinity (of_int (a + n)) = a + n"
    by (simp only: ToIntegerOrInfinity_def floor_of_int ceiling_of_int if_cancel)
  then show ?thesis
    by simp
qed

lemma setSeconds_plus_int:
  "setSeconds tza t (Some (of_int (getSeconds tza t) + of_int n)) = TimeClip (UTC tza (LocalTime tza t + n * 1000))"
  by (simp add: setSeconds_def getSeconds_def algebra_simps)



section \<open>The paths through the handler\<close>

lemma GET_reaches:
  assumes "\<not> present (map_of searchParams (js ''error''))"
    and "map_of searchParams (js ''code'') = Some code" and "code \<noteq> []"
    and "createClient e = None"
  shows "GET e origin searchParams w =
           (case exchange e origin code w of
              (Inr url, w') \<Rightarrow> (Inr url, w')
            | (Inl err, w') \<Rightarrow> catch_block origin err w')"
  using assms by (simp add: GET_def try_block_def present_def template_def)

lemma exchange_granted:
  assumes "token_endpoint e (token_request e origin code) = Inr tokenResponse"
    and "ok tokenResponse" and "json tokenResponse = Inr tokenData"
    and "get_prop tokenData ''access_token'' = Inr accessToken"
    and "get_prop tokenData ''expires_in'' = Inr expiresIn"
  shows "exchange e origin code w =
           fetch_profile e origin accessToken expiresIn (emit (Fetch_accessToken (token_request e origin code)) w)"
  using assms by (simp add: exchange_def)

lemma fetch_profile_read:
  assumes "ToString e accessToken = Inr token"
    and "userinfo_endpoint e (js ''Bearer '' @ token) = Inr profileResponse"
    and "json profileResponse = Inr profileData"
    and "get_prop profileData ''sub'' = Inr linkedinId"
    and "plus e (getSeconds (LocalTZA e) (clock e)) expiresIn = Inr sec"
  shows "fetch_profile e origin accessToken expiresIn w =
           persist e origin accessToken linkedinId (setSeconds (LocalTZA e) (clock e) sec)
             (emit (Fetch_userinfo (js ''Bearer '' @ token)) w)"
  using assms by (simp add: fetch_profile_def)

lemma catch_block_world: "snd (catch_block origin x w) = w\<lparr>trace := trace w @ [ConsoleError x]\<rparr>"
  by (simp add: catch_block_def emit_def split: sum.split)

lemma catch_block_redirect:
  "encodeURIComponent (message x) = Inr msg \<Longrightarrow>
   fst (catch_block origin x w) = Inr (origin @ js ''/#/app/settings?error=exchange_failed&msg='' @ msg)"
  by (simp add: catch_block_def)


lemma persist_cases:
  "(\<exists>x. persist e origin a l d w = (Inl x, emit GetUser w))
   \<or> (getUser e = Inr None
        \<and> persist e origin a l d w = (Inr (origin @ js ''/#/app/settings?success=true''), emit Warn (emit GetUser w)))
   \<or> (\<exists>uid t x. getUser e = Inr (Some uid) \<and> d = Some t \<and> dbError e (connection a l t) uid = Some x
        \<and> persist e origin a l d w = (Inl x, emit (Update (connection a l t) (js ''user_id'') uid) (emit GetUser w)))
   \<or> (\<exists>uid t. getUser e = Inr (Some uid) \<and> d = Some t \<and> dbError e (connection a l t) uid = None
        \<and> persist e origin a l d w =
            (Inr (origin @ js ''/#/app/settings?success=true''),
             (emit (Update (connection a l t) (js ''user_id'') uid) (emit GetUser w))
               \<lparr>profiles := update_eq (connection a l t) (js ''user_id'') uid (profiles w)\<rparr>))"
  by (auto simp add: persist_def toISOString_def Let_def emit_def split: sum.splits option.splits)

lemma fetch_profile_cases:
  "(\<exists>x. fetch_profile e origin a xin w = (Inl x, w))
   \<or> (\<exists>x token. ToString e a = Inr token
        \<and> fetch_profile e origin a xin w = (Inl x, emit (Fetch_userinfo (js ''Bearer '' @ token)) w))
   \<or> (\<exists>token profileResponse profileData l sec.
        ToString e a = Inr token
        \<and> userinfo_endpoint e (js ''Bearer '' @ token) = Inr profileResponse
        \<and> json profileResponse = Inr profileData
        \<and> get_prop profileData ''sub'' = Inr l
        \<and> plus e (getSeconds (LocalTZA e) (clock e)) xin = Inr sec
        \<and> fetch_profile e origin a xin w =
            persist e origin a l (setSeconds (LocalTZA e) (clock e) sec) (emit (Fetch_userinfo (js ''Bearer '' @ token)) w))"
  by (auto simp add: fetch_profile_def Let_def split: sum.splits)

lemma exchange_cases:
  "(\<exists>x. exchange e origin code w = (Inl x, emit (Fetch_accessToken (token_request e origin code)) w))
   \<or> (\<exists>tokenResponse tokenData a xin.
        token_endpoint e (token_request e origin code) = Inr tokenResponse
        \<and> ok tokenResponse
        \<and> json tokenResponse = Inr tokenData
        \<and> get_prop tokenData ''access_token'' = Inr a
        \<and> get_prop tokenData ''expires_in'' = Inr xin
        \<and> exchange e origin code w =
            fetch_profile e origin a xin (emit (Fetch_accessToken (token_request e origin code)) w))"
  by (auto simp add: exchange_def Let_def split: sum.splits)

lemma GET_cases:
  "(\<exists>url. GET e origin searchParams w = (Inr url, w))
   \<or> (\<exists>x. createClient e = Some x \<and> GET e origin searchParams w = catch_block origin x w)
   \<or> (\<exists>code. map_of searchParams (js ''code'') = Some code \<and> createClient e = None
        \<and> GET e origin searchParams w =
            (case exchange e origin code w of
               (Inr url, w') \<Rightarrow> (Inr url, w')
             | (Inl err, w') \<Rightarrow> catch_block origin err w'))"
  by (auto simp add: GET_def try_block_def present_def template_def Let_def split: option.splits)

lemma caught_world:
  "snd (case r of (Inr url, w') \<Rightarrow> (Inr url, w') | (Inl err, w') \<Rightarrow> catch_block origin err w')
   = (case fst r of Inr url \<Rightarrow> snd r | Inl err \<Rightarrow> (snd r)\<lparr>trace := trace (snd r) @ [ConsoleError err]\<rparr>)"
  by (cases r) (simp add: catch_block_world split: sum.split)

lemma persist_outcomes:
  fixes e origin a l d w
  defines "r \<equiv> persist e origin a l d w"
  defines "w' \<equiv> (case fst r of Inr url \<Rightarrow> snd r | Inl err \<Rightarrow> (snd r)\<lparr>trace := trace (snd r) @ [ConsoleError err]\<rparr>)"
  shows "(\<exists>x. w' = w\<lparr>trace := trace w @ [GetUser, ConsoleError x]\<rparr>)
   \<or> (getUser e = Inr None \<and> w' = w\<lparr>trace := trace w @ [GetUser, Warn]\<rparr>)
   \<or> (\<exists>uid t x. getUser e = Inr (Some uid) \<and> d = Some t \<and> dbError e (connection a l t) uid = Some x
        \<and> w' = w\<lparr>trace := trace w @ [GetUser, Update (connection a l t) (js ''user_id'') uid, ConsoleError x]\<rparr>)
   \<or> (\<exists>uid t. getUser e = Inr (Some uid) \<and> d = Some t \<and> dbError e (connection a l t) uid = None
        \<and> w' = w\<lparr>trace := trace w @ [GetUser, Update (connection a l t) (js ''user_id'') uid],
                  profiles := update_eq (connection a l t) (js ''user_id'') uid (profiles w)\<rparr>)"
  using persist_cases [of e origin a l d w] unfolding r_def w'_def
  by (elim disjE exE conjE) (auto simp add: emit_def)

lemma GET_outcomes:
  fixes e origin searchParams w
  defines "w' \<equiv> snd (GET e origin searchParams w)"
  obtains
    (early) "w' = w"
  | (client) x where "w' = w\<lparr>trace := trace w @ [ConsoleError x]\<rparr>"
  | (token) code x where "map_of searchParams (js ''code'') = Some code"
      "w' = w\<lparr>trace := trace w @ [Fetch_accessToken (token_request e origin code), ConsoleError x]\<rparr>"
  | (profile) code token x where "map_of searchParams (js ''code'') = Some code"
      "w' = w\<lparr>trace := trace w @ [Fetch_accessToken (token_request e origin code),
                                    Fetch_userinfo (js ''Bearer '' @ token), ConsoleError x]\<rparr>"
  | (session) code token x where "map_of searchParams (js ''code'') = Some code"
      "w' = w\<lparr>trace := trace w @ [Fetch_accessToken (token_request e origin code),
                                    Fetch_userinfo (js ''Bearer '' @ token), GetUser, ConsoleError x]\<rparr>"
  | (nobody) code token where "map_of searchParams (js ''code'') = Some code" "getUser e = Inr None"
      "w' = w\<lparr>trace := trace w @ [Fetch_accessToken (token_request e origin code),
                                    Fetch_userinfo (js ''Bearer '' @ token), GetUser, Warn]\<rparr>"
  | (refused) code tokenResponse tokenData a xin token profileResponse profileData l sec uid t x where
      "map_of searchParams (js ''code'') = Some code"
      "token_endpoint e (token_request e origin code) = Inr tokenResponse"
      "ok tokenResponse"
      "json tokenResponse = Inr tokenData"
      "get_prop tokenData ''access_token'' = Inr a"
      "get_prop tokenData ''expires_in'' = Inr xin"
      "ToString e a = Inr token"
      "userinfo_endpoint e (js ''Bearer '' @ token) = Inr profileResponse"
      "json profileResponse = Inr profileData"
      "get_prop profileData ''sub'' = Inr l"
      "plus e (getSeconds (LocalTZA e) (clock e)) xin = Inr sec"
      "setSeconds (LocalTZA e) (clock e) sec = Some t"
      "getUser e = Inr (Some uid)"
      "dbError e (connection a l t) uid = Some x"
      "w' = w\<lparr>trace := trace w @ [Fetch_accessToken (token_request e origin code),
                                    Fetch_userinfo (js ''Bearer '' @ token), GetUser,
                                    Update (connection a l t) (js ''user_id'') uid, ConsoleError x]\<rparr>"
  | (written) code tokenResponse tokenData a xin token profileResponse profileData l sec uid t where
      "map_of searchParams (js ''code'') = Some code"
      "token_endpoint e (token_request e origin code) = Inr tokenResponse"
      "ok tokenResponse"
      "json tokenResponse = Inr tokenData"
      "get_prop tokenData ''access_token'' = Inr a"
      "get_prop tokenData ''expires_in'' = Inr xin"
      "ToString e a = Inr token"
      "userinfo_endpoint e (js ''Bearer '' @ token) = Inr profileResponse"
      "json profileResponse = Inr profileData"
      "get_prop profileData ''sub'' = Inr l"
      "plus e (getSeconds (LocalTZA e) (clock e)) xin = Inr sec"
      "setSeconds (LocalTZA e) (clock e) sec = Some t"
      "getUser e = Inr (Some uid)"
      "dbError e (connection a l t) uid = None"
      "w' = w\<lparr>trace := trace w @ [Fetch_accessToken (token_request e origin code),
                                    Fetch_userinfo (js ''Bearer '' @ token), GetUser,
                                    Update (connection a l t) (js ''user_id'') uid],
                profiles := update_eq (connection a l t) (js ''user_id'') uid (profiles w)\<rparr>"
proof -
  consider (a) "w' = w"
    | (b) x where "w' = snd (catch_block origin x w)"
    | (c) code where "map_of searchParams (js ''code'') = Some code"
        "w' = snd (case exchange e origin code w of
                    (Inr url, w') \<Rightarrow> (Inr url, w')
                  | (Inl err, w') \<Rightarrow> catch_block origin err w')"
    using GET_cases [of e origin searchParams w] unfolding w'_def by fastforce
  then show ?thesis
  proof cases
    case a
    then show ?thesis by (rule early)
  next
    case (b x)
    then have "w' = w\<lparr>trace := trace w @ [ConsoleError x]\<rparr>"
      by (simp add: catch_block_world)
    then show ?thesis by (rule client)
  next
    case (c code)
    let ?w1 = "emit (Fetch_accessToken (token_request e origin code)) w"
    consider (d) x where "exchange e origin code w = (Inl x, ?w1)"
      | (g) tokenResponse tokenData a xin where
          "token_endpoint e (token_request e origin code) = Inr tokenResponse" "ok tokenResponse"
          "json tokenResponse = Inr tokenData" "get_prop tokenData ''access_token'' = Inr a"
          "get_prop tokenData ''expires_in'' = Inr xin"
          "exchange e origin code w = fetch_profile e origin a xin ?w1"
      using exchange_cases [of e origin code w] by blast
    then show ?thesis
    proof cases
      case (d x)
      with c(2)
      have "w' = w\<lparr>trace := trace w @ [Fetch_accessToken (token_request e origin code), ConsoleError x]\<rparr>"
        by (simp add: caught_world catch_block_world emit_def)
      with c(1) show ?thesis by (rule token)
    next
      case (g tokenResponse tokenData a xin)
      consider (h) x where "fetch_profile e origin a xin ?w1 = (Inl x, ?w1)"
        | (p) x token where "fetch_profile e origin a xin ?w1 = (Inl x, emit (Fetch_userinfo (js ''Bearer '' @ token)) ?w1)"
        | (r) token profileResponse profileData l sec where
            "ToString e a = Inr token" "userinfo_endpoint e (js ''Bearer '' @ token) = Inr profileResponse"
            "json profileResponse = Inr profileData" "get_prop profileData ''sub'' = Inr l"
            "plus e (getSeconds (LocalTZA e) (clock e)) xin = Inr sec"
            "fetch_profile e origin a xin ?w1 =
               persist e origin a l (setSeconds (LocalTZA e) (clock e) sec) (emit (Fetch_userinfo (js ''Bearer '' @ token)) ?w1)"
        using fetch_profile_cases [of e origin a xin ?w1] by blast
      then show ?thesis
      proof cases
        case (h x)
        with c(2) g(6)
        have "w' = w\<lparr>trace := trace w @ [Fetch_accessToken (token_request e origin code), ConsoleError x]\<rparr>"
          by (simp add: caught_world catch_block_world emit_def)
        with c(1) show ?thesis by (rule token)
      next
        case (p x token)
        with c(2) g(6)
        have "w' = w\<lparr>trace := trace w @ [Fetch_accessToken (token_request e origin code),
                                        Fetch_userinfo (js ''Bearer '' @ token), ConsoleError x]\<rparr>"
          by (simp add: caught_world catch_block_world emit_def)
        with c(1) show ?thesis by (rule profile)
      next
        case (r token profileResponse profileData l sec)
        let ?w2 = "emit (Fetch_userinfo (js ''Bearer '' @ token)) ?w1"
        let ?d = "setSeconds (LocalTZA e) (clock e) sec"
        have w': "w' = (case fst (persist e origin a l ?d ?w2) of
                         Inr url \<Rightarrow> snd (persist e origin a l ?d ?w2)
                       | Inl err \<Rightarrow> (snd (persist e origin a l ?d ?w2))
                                     \<lparr>trace := trace (snd (persist e origin a l ?d ?w2)) @ [ConsoleError err]\<rparr>)"
          using c(2) g(6) r(6) by (simp add: caught_world catch_block_world)
        consider (s) x where "w' = ?w2\<lparr>trace := trace ?w2 @ [GetUser, ConsoleError x]\<rparr>"
          | (n) "getUser e = Inr None" "w' = ?w2\<lparr>trace := trace ?w2 @ [GetUser, Warn]\<rparr>"
          | (f) uid t x where "getUser e = Inr (Some uid)" "?d = Some t"
              "dbError e (connection a l t) uid = Some x"
              "w' = ?w2\<lparr>trace := trace ?w2 @ [GetUser, Update (connection a l t) (js ''user_id'') uid, ConsoleError x]\<rparr>"
          | (u) uid t where "getUser e = Inr (Some uid)" "?d = Some t"
              "dbError e (connection a l t) uid = None"
              "w' = ?w2\<lparr>trace := trace ?w2 @ [GetUser, Update (connection a l t) (js ''user_id'') uid],
                          profiles := update_eq (connection a l t) (js ''user_id'') uid (profiles ?w2)\<rparr>"
          using persist_outcomes [of e origin a l ?d ?w2] unfolding w' by blast
        then show ?thesis
        proof cases
          case (s x)
          then have "w' = w\<lparr>trace := trace w @ [Fetch_accessToken (token_request e origin code),
                                        Fetch_userinfo (js ''Bearer '' @ token), GetUser, ConsoleError x]\<rparr>"
            by (simp add: emit_def)
          with c(1) show ?thesis by (rule session)
        next
          case n
          then have "w' = w\<lparr>trace := trace w @ [Fetch_accessToken (token_request e origin code),
                                        Fetch_userinfo (js ''Bearer '' @ token), GetUser, Warn]\<rparr>"
            by (simp add: emit_def)
          with c(1) n(1) show ?thesis by (rule nobody)
        next
          case (f uid t x)
          then have "w' = w\<lparr>trace := trace w @ [Fetch_accessToken (token_request e origin code),
                                             Fetch_userinfo (js ''Bearer '' @ token), GetUser,
                                             Update (connection a l t) (js ''user_id'') uid, ConsoleError x]\<rparr>"
            by (simp add: emit_def)
          with c(1) g(1-5) r(1-5) f(2,1,3) show ?thesis by (rule refused)
        next
          case (u uid t)
          then have "w' = w\<lparr>trace := trace w @ [Fetch_accessToken (token_request e origin code),
                                             Fetch_userinfo (js ''Bearer '' @ token), GetUser,
                                             Update (connection a l t) (js ''user_id'') uid],
                         profiles := update_eq (connection a l t) (js ''user_id'') uid (profiles w)\<rparr>"
            by (simp add: emit_def)
          with c(1) g(1-5) r(1-5) u(2,1,3) show ?thesis by (rule written)
        qed
      qed
    qed
  qed
qed

section \<open>The store\<close>

lemma length_update_eq [simp]: "length (update_eq values column x rows) = length rows"
  by (simp add: update_eq_def)

lemma update_eq_other:
  "i < length rows \<Longrightarrow> (rows ! i) column \<noteq> Some (Val (Str x)) \<Longrightarrow> update_eq values column x rows ! i = rows ! i"
  by (simp add: update_eq_def)

lemma update_eq_frame:
  assumes "i < length rows" and "k \<notin> fst ` set values"
  shows "(update_eq values column x rows ! i) k = (rows ! i) k"
proof -
  have "k \<notin> fst ` set (sent values)"
    using assms(2) by (auto simp add: sent_def)
  then have "map_of (sent values) k = None"
    by (simp add: map_of_eq_None_iff)
  then show ?thesis
    using assms(1) by (simp add: update_eq_def map_add_def)
qed



lemma connection_columns:
  "map fst (connection a l t) =
     [js ''linkedin_token'', js ''linkedin_profile_id'', js ''linkedin_connected'', js ''linkedin_token_expires_at'']"
  by (simp add: connection_def)

section \<open>Runs of the sample deployment\<close>

lemmas sample_defs = sample_def granted_def userinfo_def callback_def before_def
lemmas run_defs = GET_def try_block_def exchange_def fetch_profile_def persist_def catch_block_def
  present_def template_def ToString_def plus_def token_request_def toISOString_def emit_def Let_def

lemma setSeconds_hour:
  "setSeconds (\<lambda>t isUTC. 0) 1700000000123 (Some (rat_of_int (getSeconds (\<lambda>t isUTC. 0) 1700000000123) + 3600))
     = Some 1700003600123"
  using setSeconds_plus_int [of "\<lambda>t isUTC. 0" 1700000000123 3600] by (simp add: TimeClip_def UTC_def LocalTime_def)




lemma bearer_T: "js ''Bearer '' @ js ''T'' = js ''Bearer T''"
  by (simp add: js_def)


lemmas encode_defs = uriUnescaped_def leading_surrogate_def trailing_surrogate_def escaped_def utf8_def percent_def


lemma callback_error: "\<not> present (map_of callback (js ''error''))"
  by (simp add: callback_def present_def)

lemma callback_code: "map_of callback (js ''code'') = Some (js ''abc'')"
  by (simp add: callback_def)

lemma abc: "js ''abc'' \<noteq> []"
  by simp




lemma granted_fields:
  "ok granted"
  "json granted = Inr (Object [(js ''access_token'', Str (js ''T'')), (js ''expires_in'', Number 3600)])"
  "get_prop (Object [(js ''access_token'', Str (js ''T'')), (js ''expires_in'', Number 3600)]) ''access_token'' = Inr (Str (js ''T''))"
  "get_prop (Object [(js ''access_token'', Str (js ''T'')), (js ''expires_in'', Number 3600)]) ''expires_in'' = Inr (Number 3600)"
  by (simp_all add: granted_def)

lemma userinfo_fields:
  "json userinfo = Inr (Object [(js ''sub'', Str (js ''ext-123''))])"
  "get_prop (Object [(js ''sub'', Str (js ''ext-123''))]) ''sub'' = Inr (Str (js ''ext-123''))"
  by (simp_all add: userinfo_def)


lemma encode_unexpected_token:
  "encodeURIComponent (js ''Unexpected token < in JSON at position 0'')
     = Inr (js ''Unexpected%20token%20%3C%20in%20JSON%20at%20position%200'')"
  by (simp add: js_def encode_defs)

lemma sample_events:
  "trace (snd (GET sample origin callback before)) = trace before @
     [Fetch_accessToken (token_request sample origin (js ''abc'')),
      Fetch_userinfo (js ''Bearer T''), GetUser,
      Update (connection (Str (js ''T'')) (Str (js ''ext-123'')) 1700003600123) (js ''user_id'') (js ''U'')]"
  by (simp add: run_defs sample_defs setSeconds_hour bearer_T)

section \<open>What the redirect contains\<close>

lemma contains_success:
  "sublist (js ''success=true'') (origin @ js ''/#/app/settings?success=true'')"
  using sublist_js [of "''success=true''" origin "''/#/app/settings?''" "[]" "[]"] by (simp add: js_def)

lemma contains_exchange_failed:
  "sublist (js ''error=exchange_failed'') (origin @ js ''/#/app/settings?error=exchange_failed&msg='' @ t)"
  using sublist_js [of "''error=exchange_failed''" origin "''/#/app/settings?''" "''&msg=''" t] by simp

lemma contains_access_denied:
  "sublist (js ''error=access_denied'') (origin @ js ''/#/app/settings?error=access_denied&msg='' @ t)"
  using sublist_js [of "''error=access_denied''" origin "''/#/app/settings?''" "''&msg=''" t] by simp

lemma access_denied_text:
  "js ''/#/app/settings?error='' @ js ''access_denied'' @ js ''&msg='' @ t
   = js ''/#/app/settings?error=access_denied&msg='' @ t"
  by (simp add: js_def)

section \<open>The state token\<close>

subsection \<open>base64 and back\<close>

lemma base64_value_digit_all: "list_all (\<lambda>n. base64_value (base64_digit n) = Some n) [0..<64]"
  by code_simp

lemma base64_value_digit: "n < 64 \<Longrightarrow> base64_value (base64_digit n) = Some n"
  using base64_value_digit_all by (simp add: list_all_iff)


lemma base64_digit_plain:
  assumes "n < 64"
  shows "base64_digit n \<noteq> 0x3D" and "base64_digit n \<notin> {0x09, 0x0A, 0x0C, 0x0D, 0x20}"
proof -
  have v: "base64_value (base64_digit n) = Some n"
    using assms by (rule base64_value_digit)
  show "base64_digit n \<noteq> 0x3D"
    using v by (auto simp add: base64_value_def)
  show "base64_digit n \<notin> {0x09, 0x0A, 0x0C, 0x0D, 0x20}"
    using v by (auto simp add: base64_value_def)
qed

lemma sextets_less: "\<forall>b \<in> set bs. b < 256 \<Longrightarrow> \<forall>d \<in> set (sextets bs). d < 64"
  by (induction bs rule: sextets.induct) auto

lemma octets_sextets: "\<forall>b \<in> set bs. b < 256 \<Longrightarrow> octets (sextets bs) = bs"
  by (induction bs rule: sextets.induct) auto

lemma length_sextets: "length (sextets bs) = (length bs * 4 + 2) div 3"
  by (induction bs rule: sextets.induct) auto

lemma sextet_count:
  fixes n :: nat
  obtains m where "(n * 4 + 2) div 3 = 4 * m" "(3 - n mod 3) mod 3 = 0"
  | m where "(n * 4 + 2) div 3 = 4 * m + 2" "(3 - n mod 3) mod 3 = 2"
  | m where "(n * 4 + 2) div 3 = 4 * m + 3" "(3 - n mod 3) mod 3 = 1"
proof -
  obtain m r where n: "n = 3 * m + r" and r: "r < 3"
    by (metis mod_less_divisor mult_div_mod_eq zero_less_numeral)
  from r consider "r = 0" | "r = 1" | "r = 2"
    by linarith
  then show ?thesis
  proof cases
    case 1
    have a: "n = 3 * m" using n 1 by simp
    have b: "(n * 4 + 2) div 3 = 4 * m" using a by arith
    have c: "(3 - n mod 3) mod 3 = 0" using a by simp
    from b c show ?thesis by (rule that(1))
  next
    case 2
    have a: "n = 3 * m + 1" using n 2 by simp
    have b: "(n * 4 + 2) div 3 = 4 * m + 2" using a by arith
    have "n mod 3 = 1 mod 3" unfolding a by (rule mod_mult_self4)
    then have c: "(3 - n mod 3) mod 3 = 2" by simp
    from b c show ?thesis by (rule that(2))
  next
    case 3
    have a: "n = 3 * m + 2" using n 3 by simp
    have b: "(n * 4 + 2) div 3 = 4 * m + 3" using a by arith
    have "n mod 3 = 2 mod 3" unfolding a by (rule mod_mult_self4)
    then have c: "(3 - n mod 3) mod 3 = 1" by simp
    from b c show ?thesis by (rule that(3))
  qed
qed

lemma mod_4_facts: "(4 * m) mod 4 = (0::nat)" "(4 * m + 2) mod 4 = (2::nat)" "(4 * m + 3) mod 4 = (3::nat)"
  "(4 * m + 2 + 2) mod 4 = (0::nat)" "(4 * m + 3 + 1) mod 4 = (0::nat)"
proof -
  show "(4 * m) mod 4 = (0::nat)"
    by simp
  have "(4 * m + 2) mod 4 = (2::nat) mod 4"
    by (rule mod_mult_self4)
  then show "(4 * m + 2) mod 4 = (2::nat)"
    by simp
  have "(4 * m + 3) mod 4 = (3::nat) mod 4"
    by (rule mod_mult_self4)
  then show "(4 * m + 3) mod 4 = (3::nat)"
    by simp
  have "(4 * m + 4) mod 4 = (4::nat) mod 4"
    by (rule mod_mult_self4)
  then have "(4 * m + 4) mod 4 = (0::nat)"
    by simp
  then show "(4 * m + 2 + 2) mod 4 = (0::nat)" "(4 * m + 3 + 1) mod 4 = (0::nat)"
    by (simp_all add: add.assoc)
qed

lemma those_map_Some: "\<forall>d \<in> set ds. f (g d) = Some d \<Longrightarrow> those (map f (map g ds)) = Some ds"
  by (induction ds) auto

lemma suffix_single: "suffix [x] ys \<Longrightarrow> x \<in> set ys"
proof -
  assume "suffix [x] ys"
  then have "set [x] \<subseteq> set ys"
    by (rule set_mono_suffix)
  then show ?thesis
    by simp
qed

lemma strip_padding_base64:
  assumes "\<forall>b \<in> set bs. b < 256"
  shows "strip_padding (base64 bs) = map base64_digit (sextets bs)"
proof -
  let ?D = "map base64_digit (sextets bs)"
  have plain: "0x3D \<notin> set ?D"
  proof
    assume "0x3D \<in> set ?D"
    then obtain d where d: "d \<in> set (sextets bs)" and eq: "base64_digit d = 0x3D"
      by (metis (no_types, lifting) imageE list.set_map)
    from d sextets_less [OF assms] have "d < 64"
      by blast
    then have "base64_digit d \<noteq> 0x3D"
      by (rule base64_digit_plain(1))
    with eq show False
      by simp
  qed
  have single: "\<not> suffix [0x3D] ?D"
  proof
    assume "suffix [0x3D] ?D"
    then have "0x3D \<in> set ?D"
      by (rule suffix_single)
    with plain show False
      by simp
  qed
  show ?thesis
  proof (cases "length bs" rule: sextet_count)
    case (1 m)
    have "\<not> suffix [0x3D, 0x3D] ?D"
    proof
      assume "suffix [0x3D, 0x3D] ?D"
      then have "set [0x3D, 0x3D] \<subseteq> set ?D"
        by (rule set_mono_suffix)
      with plain show False
        by simp
    qed
    with single show ?thesis
      by (simp add: base64_def strip_padding_def 1(2))
  next
    case (2 m)
    have "suffix [0x3D, 0x3D] (?D @ [0x3D, 0x3D])"
      by (rule suffix_appendI) simp
    moreover have "butlast (butlast (?D @ [0x3D, 0x3D])) = ?D"
      by (simp add: butlast_append)
    moreover have "replicate 2 (0x3D :: 16 word) = [0x3D, 0x3D]"
      by (simp add: numeral_2_eq_2)
    moreover have "length ?D = 4 * m + 2"
      by (simp only: length_map length_sextets 2(1))
    then have "length (?D @ [0x3D, 0x3D]) = 4 * m + 2 + 2"
      by simp
    then have "length (?D @ [0x3D, 0x3D]) mod 4 = 0"
      by (simp only: mod_4_facts)
    ultimately show ?thesis
      by (simp add: base64_def strip_padding_def 2(2))
  next
    case (3 m)
    have "\<not> suffix ([0x3D] @ [0x3D]) (?D @ [0x3D])"
      using single by (simp only: snoc_suffix_snoc) simp
    then have "\<not> suffix [0x3D, 0x3D] (?D @ [0x3D])"
      by simp
    moreover have "suffix [0x3D] (?D @ [0x3D])"
      by (rule suffix_appendI) simp
    moreover have "length ?D = 4 * m + 3"
      by (simp only: length_map length_sextets 3(1))
    then have "length (?D @ [0x3D]) = 4 * m + 3 + 1"
      by simp
    then have "length (?D @ [0x3D]) mod 4 = 0"
      by (simp only: mod_4_facts)
    ultimately show ?thesis
      by (simp add: base64_def strip_padding_def 3(2))
  qed
qed

lemma filter_base64:
  assumes "\<forall>b \<in> set bs. b < 256"
  shows "filter (\<lambda>c. c \<notin> {0x09, 0x0A, 0x0C, 0x0D, 0x20}) (base64 bs) = base64 bs"
proof -
  have "\<forall>c \<in> set (map base64_digit (sextets bs)). c \<notin> {0x09, 0x0A, 0x0C, 0x0D, 0x20}"
    using sextets_less [OF assms] base64_digit_plain(2) by auto
  then have "\<forall>c \<in> set (base64 bs). c \<notin> {0x09, 0x0A, 0x0C, 0x0D, 0x20}"
    by (auto simp add: base64_def)
  then show ?thesis
    by (simp only: filter_True)
qed

lemma atob_base64:
  assumes "\<forall>b \<in> set bs. b < 256"
  shows "atob (base64 bs) = Inr (map word_of_nat bs)"
proof -
  have t: "strip_padding (filter (\<lambda>c. c \<notin> {0x09, 0x0A, 0x0C, 0x0D, 0x20}) (base64 bs)) = map base64_digit (sextets bs)"
    by (simp only: filter_base64 [OF assms] strip_padding_base64 [OF assms])
  have "length (sextets bs) mod 4 \<noteq> 1"
  proof (cases "length bs" rule: sextet_count)
    case (1 m)
    then have "length (sextets bs) mod 4 = 0"
      by (simp only: length_sextets mod_4_facts)
    then show ?thesis
      by simp
  next
    case (2 m)
    then have "length (sextets bs) mod 4 = 2"
      by (simp only: length_sextets mod_4_facts)
    then show ?thesis
      by simp
  next
    case (3 m)
    then have "length (sextets bs) mod 4 = 3"
      by (simp only: length_sextets mod_4_facts)
    then show ?thesis
      by simp
  qed
  moreover have "those (map base64_value (map base64_digit (sextets bs))) = Some (sextets bs)"
    using sextets_less [OF assms] by (intro those_map_Some) (simp add: base64_value_digit)
  ultimately show ?thesis
    unfolding atob_def Let_def t by (simp add: octets_sextets [OF assms])
qed

lemma atob_btoa:
  assumes "\<forall>c \<in> set s. c \<le> 0xFF"
  shows "\<exists>state. btoa s = Inr state \<and> atob state = Inr s"
proof -
  have "\<forall>b \<in> set (map unat s). b < 256"
    using assms by (auto simp add: word_le_nat_alt)
  then have "atob (base64 (map unat s)) = Inr (map word_of_nat (map unat s))"
    by (rule atob_base64)
  moreover have "map word_of_nat (map unat s) = s"
    by (simp add: map_idI)
  moreover have "\<not> (\<exists>c \<in> set s. 0xFF < c)"
    using assms by (auto simp add: not_less)
  ultimately show ?thesis
    by (simp add: btoa_def)
qed

subsection \<open>JSON text and back\<close>

lemma hex_value_hex_all: "list_all (\<lambda>n. hex_value (hex n) = Some n) [0..<16]"
  by code_simp

lemma hex_value_hex: "n < 16 \<Longrightarrow> hex_value (hex n) = Some n"
  using hex_value_hex_all by (simp add: list_all_iff)

lemma four_digits:
  fixes n :: nat
  assumes "n < 65536"
  shows "n div 4096 * 4096 + n div 256 mod 16 * 256 + n div 16 mod 16 * 16 + n mod 16 = n"
    and "n div 4096 < 16"
proof -
  have e: "n div 16 div 16 = n div 256" "n div 256 div 16 = n div 4096"
    by (simp_all add: div_mult2_eq [symmetric])
  have a: "n = n div 16 * 16 + n mod 16"
    by simp
  have "n div 16 = n div 16 div 16 * 16 + n div 16 mod 16"
    by simp
  then have b: "n div 16 = n div 256 * 16 + n div 16 mod 16"
    by (simp only: e)
  have "n div 256 = n div 256 div 16 * 16 + n div 256 mod 16"
    by simp
  then have c: "n div 256 = n div 4096 * 16 + n div 256 mod 16"
    by (simp only: e)
  show "n div 4096 < 16"
    using assms by (simp add: less_mult_imp_div_less)
  show "n div 4096 * 4096 + n div 256 mod 16 * 256 + n div 16 mod 16 * 16 + n mod 16 = n"
    using a b c by linarith
qed

lemma hex4_UnicodeEscape:
  "hex4 (hex (unat c div 4096)) (hex (unat c div 256 mod 16)) (hex (unat c div 16 mod 16)) (hex (unat c mod 16)) = Some c"
proof -
  have n: "unat c < 65536"
    using unsigned_less [of c] by simp
  have "word_of_nat (unat c div 4096 * 4096 + unat c div 256 mod 16 * 256 + unat c div 16 mod 16 * 16 + unat c mod 16) = c"
    by (simp only: four_digits(1) [OF n]) simp
  then show ?thesis
    using four_digits(2) [OF n] by (simp add: hex4_def hex_value_hex)
qed

lemma string_literal_UnicodeEscape:
  "string_literal (UnicodeEscape c @ rest) = followed c (string_literal rest)"
  by (simp add: UnicodeEscape_def hex4_UnicodeEscape)

lemma string_literal_plain:
  "0x20 \<le> c \<Longrightarrow> c \<noteq> 0x22 \<Longrightarrow> c \<noteq> 0x5C \<Longrightarrow> string_literal (c # rest) = followed c (string_literal rest)"
  by (simp add: not_less [symmetric])

lemma string_literal_quote_unit:
  "string_literal (quote_unit c @ rest) = followed c (string_literal rest)"
  by (auto simp add: quote_unit_def string_literal_UnicodeEscape unescape_def)

lemma surrogate_plain:
  assumes "leading_surrogate c \<or> trailing_surrogate c"
  shows "0x20 \<le> c" and "c \<noteq> 0x22" and "c \<noteq> 0x5C"
proof -
  have n: "55296 \<le> unat c"
    using assms by (auto simp add: leading_surrogate_def trailing_surrogate_def word_le_nat_alt)
  then show "0x20 \<le> c"
    by (simp add: word_le_nat_alt)
  show "c \<noteq> 0x22" and "c \<noteq> 0x5C"
    using n by auto
qed

lemma string_literal_surrogate:
  "leading_surrogate c \<or> trailing_surrogate c \<Longrightarrow> string_literal (c # rest) = followed c (string_literal rest)"
  by (rule string_literal_plain) (rule surrogate_plain; assumption)+

lemma string_literal_quoted: "string_literal (quoted s @ 0x22 # rest) = Some (s, rest)"
proof (induction s rule: quoted.induct)
  case 1
  show ?case
    by simp
next
  case (2 c)
  have "string_literal (quoted [c] @ 0x22 # rest) = followed c (string_literal (0x22 # rest))"
    by (simp only: quoted.simps string_literal_UnicodeEscape string_literal_quote_unit split: if_split) simp
  then show ?case
    by (simp add: followed_def)
next
  case (3 c d cs)
  show ?case
  proof (cases "leading_surrogate c \<and> trailing_surrogate d")
    case True
    have q: "quoted (c # d # cs) @ 0x22 # rest = c # d # (quoted cs @ 0x22 # rest)"
      using True by simp
    have "string_literal (c # d # (quoted cs @ 0x22 # rest))
            = followed c (string_literal (d # (quoted cs @ 0x22 # rest)))"
      using True by (intro string_literal_surrogate) simp
    also have "string_literal (d # (quoted cs @ 0x22 # rest)) = followed d (string_literal (quoted cs @ 0x22 # rest))"
      using True by (intro string_literal_surrogate) simp
    finally show ?thesis
      using 3(1) True by (simp only: q) (simp add: followed_def)
  next
    case False
    then have "string_literal (quoted (c # d # cs) @ 0x22 # rest)
                 = followed c (string_literal (quoted (d # cs) @ 0x22 # rest))"
      by (simp only: quoted.simps if_False append_assoc string_literal_UnicodeEscape string_literal_quote_unit
            split: if_split) simp
    then show ?thesis
      using 3(2,3) False by (auto simp add: followed_def)
  qed
qed

lemma quoted_ascii: "quoted (js ''userId'') = js ''userId''" "quoted (js ''nonce'') = js ''nonce''"
  by (simp_all add: js_def leading_surrogate_def trailing_surrogate_def quote_unit_def)

lemma strip_prefix_append: "strip_prefix p (p @ s) = Some s"
  by (simp add: strip_prefix_def)

lemma parse_state_stringify: "parse_state (JSON_stringify userId nonce) = Some (userId, nonce)"
proof -
  let ?p1 = "js ''{'' @ [0x22] @ js ''userId'' @ [0x22] @ js '':'' @ [0x22]"
  let ?p2 = "js '','' @ [0x22] @ js ''nonce'' @ [0x22] @ js '':'' @ [0x22]"
  let ?s3 = "quoted nonce @ 0x22 # js ''}''"
  let ?s1 = "quoted userId @ 0x22 # (?p2 @ ?s3)"
  have "JSON_stringify userId nonce = ?p1 @ ?s1"
    by (simp add: JSON_stringify_def QuoteJSONString_def quoted_ascii)
  then have 1: "strip_prefix ?p1 (JSON_stringify userId nonce) = Some ?s1"
    by (simp only: strip_prefix_append)
  have 2: "string_literal ?s1 = Some (userId, ?p2 @ ?s3)"
    by (rule string_literal_quoted)
  have 3: "strip_prefix ?p2 (?p2 @ ?s3) = Some ?s3"
    by (rule strip_prefix_append)
  have 4: "string_literal ?s3 = Some (nonce, js ''}'')"
    by (rule string_literal_quoted)
  show ?thesis
    unfolding parse_state_def 1 option.case 2 prod.case 3 4 by simp
qed

subsection \<open>The query of the URL and back\<close>

lemma usv_utf8_ascii: "\<forall>c \<in> set s. c < 0x80 \<Longrightarrow> usv_utf8 s = map unat s"
proof (induction s rule: usv_utf8.induct)
  case 1
  show ?case by simp
next
  case (2 c)
  then have "unat c < 128"
    by (simp add: word_less_nat_alt)
  moreover have "\<not> leading_surrogate c" "\<not> trailing_surrogate c"
    using \<open>unat c < 128\<close> by (auto simp add: leading_surrogate_def trailing_surrogate_def word_le_nat_alt)
  ultimately show ?case
    by (simp add: utf8_def)
next
  case (3 c d cs)
  then have "unat c < 128"
    by (simp add: word_less_nat_alt)
  moreover have "\<not> leading_surrogate c" "\<not> trailing_surrogate c"
    using \<open>unat c < 128\<close> by (auto simp add: leading_surrogate_def trailing_surrogate_def word_le_nat_alt)
  ultimately show ?case
    using 3 by (simp add: utf8_def)
qed

lemma upper_hex_all:
  "list_all (\<lambda>n. hex_value (js ''0123456789ABCDEF'' ! n) = Some n
                 \<and> js ''0123456789ABCDEF'' ! n \<notin> {0x23, 0x25, 0x26, 0x2B, 0x3D, 0x3F}) [0..<16]"
  by code_simp

lemma upper_hex:
  assumes "n < 16"
  shows "hex_value (js ''0123456789ABCDEF'' ! n) = Some n"
    and "js ''0123456789ABCDEF'' ! n \<notin> {0x23, 0x25, 0x26, 0x2B, 0x3D, 0x3F}"
  using upper_hex_all assms by (simp_all add: list_all_iff)

lemma percent_decode_plain: "c \<noteq> 0x25 \<Longrightarrow> percent_decode (c # cs) = unat c # percent_decode cs"
  by (cases cs rule: percent_decode.cases) simp_all

text \<open>What one encoded byte looks like.\<close>

lemma form_byte_cases [consumes 1, case_names space plain escaped]:
  assumes "b < 128"
  obtains (space) "b = 0x20" "form_byte b = [0x2B]"
  | (plain) "form_byte b = [word_of_nat b]" "(word_of_nat b :: 16 word) \<notin> {0x23, 0x25, 0x26, 0x2B, 0x3D, 0x3F}"
  | (escaped) "form_byte b = [0x25, js ''0123456789ABCDEF'' ! (b div 16), js ''0123456789ABCDEF'' ! (b mod 16)]"
proof (cases "b = 0x20")
  case True
  then show ?thesis
    by (intro space) (simp_all add: form_byte_def)
next
  case False
  show ?thesis
  proof (cases "(0x30 \<le> b \<and> b \<le> 0x39) \<or> (0x41 \<le> b \<and> b \<le> 0x5A) \<or> (0x61 \<le> b \<and> b \<le> 0x7A) \<or> b \<in> {0x2A, 0x2D, 0x2E, 0x5F}")
    case True
    have u: "unat (word_of_nat b :: 16 word) = b"
      using assms by (simp add: unat_of_nat)
    have "(word_of_nat b :: 16 word) \<notin> {0x23, 0x25, 0x26, 0x2B, 0x3D, 0x3F}"
    proof
      assume "(word_of_nat b :: 16 word) \<in> {0x23, 0x25, 0x26, 0x2B, 0x3D, 0x3F}"
      then have "unat (word_of_nat b :: 16 word) \<in> {0x23, 0x25, 0x26, 0x2B, 0x3D, 0x3F}"
        by auto
      then show False
        using True unfolding u by auto
    qed
    then show ?thesis
      using True False by (intro plain) (simp_all add: form_byte_def)
  next
    case no: False
    show ?thesis
      using no False by (intro escaped) (simp add: form_byte_def percent_def)
  qed
qed

lemma percent_decode_form_byte:
  assumes "b < 128"
  shows "percent_decode (plus_to_space (form_byte b @ rest)) = b # percent_decode (plus_to_space rest)"
  using assms
proof (cases rule: form_byte_cases)
  case space
  then show ?thesis
    by (simp add: plus_to_space_def percent_decode_plain del: percent_decode.simps)
next
  case plain
  have "unat (word_of_nat b :: 16 word) = b"
    using assms by (simp add: unat_of_nat)
  then show ?thesis
    using plain by (simp add: plus_to_space_def percent_decode_plain del: percent_decode.simps)
next
  case escaped
  have d: "b div 16 < 16" "b mod 16 < 16"
    using assms by simp_all
  have "b div 16 * 16 + b mod 16 = b"
    by simp
  then show ?thesis
    using escaped upper_hex [OF d(1)] upper_hex [OF d(2)]
    by (simp add: plus_to_space_def)
qed

lemma percent_decode_form_bytes:
  "\<forall>b \<in> set bs. b < 128 \<Longrightarrow> percent_decode (plus_to_space (concat (map form_byte bs))) = bs"
proof (induction bs)
  case Nil
  show ?case by (simp add: plus_to_space_def)
next
  case (Cons b bs)
  then show ?case
    by (simp add: percent_decode_form_byte del: percent_decode.simps)
qed

lemma form_decode_encode:
  assumes "\<forall>c \<in> set s. c < 0x80"
  shows "form_decode (form_encode s) = Some s"
proof -
  have b: "\<forall>b \<in> set (map unat s). b < 128"
    using assms by (auto simp add: word_less_nat_alt)
  have "percent_decode (plus_to_space (form_encode s)) = map unat s"
    using percent_decode_form_bytes [OF b] by (simp add: form_encode_def usv_utf8_ascii [OF assms])
  moreover have "map word_of_nat (map unat s) = s"
    by (simp add: map_idI)
  ultimately show ?thesis
    using b by (simp add: form_decode_def plus_to_space_def)
qed

lemma form_encode_safe:
  assumes "\<forall>c \<in> set s. c < 0x80"
  shows "\<forall>c \<in> set (form_encode s). c \<notin> {0x23, 0x26, 0x3D, 0x3F}"
proof -
  have "\<forall>c \<in> set (form_byte b). c \<notin> {0x23, 0x26, 0x3D, 0x3F}" if "b < 128" for b
    using that
  proof (cases rule: form_byte_cases)
    case space
    then show ?thesis by simp
  next
    case plain
    then show ?thesis by simp
  next
    case escaped
    have d: "b div 16 < 16" "b mod 16 < 16"
      using that by simp_all
    show ?thesis
      using escaped upper_hex(2) [OF d(1)] upper_hex(2) [OF d(2)] by simp
  qed
  moreover have "\<forall>b \<in> set (map unat s). b < 128"
    using assms by (auto simp add: word_less_nat_alt)
  ultimately show ?thesis
    by (auto simp add: form_encode_def usv_utf8_ascii [OF assms])
qed

lemma split_on_last: "sep \<notin> set a \<Longrightarrow> split_on sep a = [a]"
  by (induction a) auto

lemma split_on_append: "sep \<notin> set a \<Longrightarrow> split_on sep (a @ sep # b) = a # split_on sep b"
  by (induction a) auto

lemma dropWhile_found: "\<forall>x \<in> set a. P x \<Longrightarrow> \<not> P y \<Longrightarrow> dropWhile P (a @ y # b) = y # b"
  by (induction a) auto

lemma takeWhile_found: "\<forall>x \<in> set a. P x \<Longrightarrow> \<not> P y \<Longrightarrow> takeWhile P (a @ y # b) = a"
  by (induction a) auto

lemma name_value_encoded:
  assumes "\<forall>c \<in> set k. c < 0x80" and "\<forall>c \<in> set v. c < 0x80"
  shows "name_value (form_encode k @ [0x3D] @ form_encode v) = (Some k, Some v)"
proof -
  have k: "\<forall>x \<in> set (form_encode k). x \<noteq> 0x3D"
    using form_encode_safe [OF assms(1)] by auto
  have "takeWhile (\<lambda>c. c \<noteq> 0x3D) (form_encode k @ 0x3D # form_encode v) = form_encode k"
    using k by (rule takeWhile_found) simp
  moreover have "dropWhile (\<lambda>c. c \<noteq> 0x3D) (form_encode k @ 0x3D # form_encode v) = 0x3D # form_encode v"
    using k by (rule dropWhile_found) simp
  ultimately show ?thesis
    by (simp add: name_value_def form_decode_encode [OF assms(1)] form_decode_encode [OF assms(2)])
qed

lemma urlencoded_safe:
  assumes "\<forall>(k, v) \<in> set ps. (\<forall>c \<in> set k. c < 0x80) \<and> (\<forall>c \<in> set v. c < 0x80)"
  shows "\<forall>c \<in> set (urlencoded ps). c \<noteq> 0x23"
  using assms
proof (induction ps rule: urlencoded.induct)
  case 1
  show ?case by simp
next
  case (2 k v)
  then show ?case
    using form_encode_safe [of k] form_encode_safe [of v] by auto
next
  case (3 k v p ps)
  then show ?case
    using form_encode_safe [of k] form_encode_safe [of v] by auto
qed

lemma split_urlencoded:
  assumes "\<forall>(k, v) \<in> set ps. (\<forall>c \<in> set k. c < 0x80) \<and> (\<forall>c \<in> set v. c < 0x80)"
  shows "filter (\<lambda>s. s \<noteq> []) (split_on 0x26 (urlencoded ps))
           = map (\<lambda>(k, v). form_encode k @ [0x3D] @ form_encode v) ps"
  using assms
proof (induction ps rule: urlencoded.induct)
  case 1
  show ?case by simp
next
  case (2 k v)
  then have "0x26 \<notin> set (form_encode k @ [0x3D] @ form_encode v)"
    using form_encode_safe [of k] form_encode_safe [of v] by auto
  then have "split_on 0x26 (form_encode k @ [0x3D] @ form_encode v) = [form_encode k @ [0x3D] @ form_encode v]"
    by (rule split_on_last)
  then show ?case
    by simp
next
  case (3 k v p ps)
  let ?seg = "form_encode k @ [0x3D] @ form_encode v"
  have "0x26 \<notin> set ?seg"
    using 3(2) form_encode_safe [of k] form_encode_safe [of v] by auto
  then have "split_on 0x26 (?seg @ 0x26 # urlencoded (p # ps)) = ?seg # split_on 0x26 (urlencoded (p # ps))"
    by (rule split_on_append)
  moreover have "urlencoded ((k, v) # p # ps) = ?seg @ 0x26 # urlencoded (p # ps)"
    by simp
  ultimately show ?case
    using 3 by simp
qed

lemma query_pairs_href:
  assumes "0x3F \<notin> set base" and "0x23 \<notin> set base"
    and "\<forall>(k, v) \<in> set ps. (\<forall>c \<in> set k. c < 0x80) \<and> (\<forall>c \<in> set v. c < 0x80)"
  shows "query_pairs (base @ 0x3F # urlencoded ps) = map (\<lambda>(k, v). (Some k, Some v)) ps"
proof -
  have "\<forall>c \<in> set (base @ 0x3F # urlencoded ps). c \<noteq> 0x23"
    using urlencoded_safe [OF assms(3)] assms(2) by auto
  then have fragment: "takeWhile (\<lambda>c. c \<noteq> 0x23) (base @ 0x3F # urlencoded ps) = base @ 0x3F # urlencoded ps"
    by (simp only: takeWhile_eq_all_conv)
  have query: "drop 1 (dropWhile (\<lambda>c. c \<noteq> 0x3F) (base @ 0x3F # urlencoded ps)) = urlencoded ps"
    using assms(1) by (subst dropWhile_found) auto
  have pairs: "map name_value (map (\<lambda>(k, v). form_encode k @ [0x3D] @ form_encode v) ps)
                   = map (\<lambda>(k, v). (Some k, Some v)) ps"
  proof -
    have pair: "name_value (form_encode k @ [0x3D] @ form_encode v) = (Some k, Some v)"
      if "(k, v) \<in> set ps" for k v
    proof -
      have "(\<forall>c \<in> set k. c < 0x80) \<and> (\<forall>c \<in> set v. c < 0x80)"
        using assms(3) that by blast
      then show ?thesis
        using name_value_encoded [of k v] by blast
    qed
    have "\<forall>p \<in> set ps. (name_value \<circ> (\<lambda>(k, v). form_encode k @ [0x3D] @ form_encode v)) p
                 = (\<lambda>(k, v). (Some k, Some v)) p"
    proof
      fix p
      assume p: "p \<in> set ps"
      obtain k v where kv: "p = (k, v)"
        by (cases p)
      show "(name_value \<circ> (\<lambda>(k, v). form_encode k @ [0x3D] @ form_encode v)) p
              = (\<lambda>(k, v). (Some k, Some v)) p"
        using pair [of k v] p
        unfolding kv by (simp only: comp_def case_prod_conv)
    qed
    then have "map (name_value \<circ> (\<lambda>(k, v). form_encode k @ [0x3D] @ form_encode v)) ps
                 = map (\<lambda>(k, v). (Some k, Some v)) ps"
      by (simp only: map_eq_conv)
    then show ?thesis
      by (simp only: map_map)
  qed
  show ?thesis
    unfolding query_pairs_def fragment query split_urlencoded [OF assms(3)] by (rule pairs)
qed

subsection \<open>What the builder hands to each step\<close>

lemma hex_latin1_all: "list_all (\<lambda>n. hex n \<le> 0xFF) [0..<16]"
  by code_simp

lemma hex_latin1: "n < 16 \<Longrightarrow> hex n \<le> 0xFF"
  using hex_latin1_all by (simp add: list_all_iff)

lemma UnicodeEscape_latin1: "\<forall>x \<in> set (UnicodeEscape c). x \<le> 0xFF"
proof -
  have "unat c < 65536"
    using unsigned_less [of c] by simp
  then have "unat c div 4096 < 16"
    by simp
  then show ?thesis
    by (simp add: UnicodeEscape_def hex_latin1)
qed

lemma quote_unit_latin1: "c \<le> 0xFF \<Longrightarrow> \<forall>x \<in> set (quote_unit c). x \<le> 0xFF"
  using UnicodeEscape_latin1 [of c] by (simp add: quote_unit_def)

lemma quoted_latin1: "\<forall>c \<in> set s. c \<le> 0xFF \<Longrightarrow> \<forall>c \<in> set (quoted s). c \<le> 0xFF"
proof (induction s rule: quoted.induct)
  case 1
  show ?case
    by simp
next
  case (2 c)
  then show ?case
    using UnicodeEscape_latin1 [of c] quote_unit_latin1 [of c] by simp
next
  case (3 c d cs)
  then show ?case
    using UnicodeEscape_latin1 [of c] quote_unit_latin1 [of c] by (auto simp del: quoted.simps(2))
qed

lemma JSON_stringify_latin1:
  assumes "\<forall>c \<in> set userId. c \<le> 0xFF" and "\<forall>c \<in> set nonce. c \<le> 0xFF"
  shows "\<forall>c \<in> set (JSON_stringify userId nonce). c \<le> 0xFF"
proof -
  have "\<forall>c \<in> set (QuoteJSONString s). c \<le> 0xFF" if "\<forall>c \<in> set s. c \<le> 0xFF" for s
    using quoted_latin1 [OF that] by (simp add: QuoteJSONString_def)
  moreover have "\<forall>c \<in> set (js ''userId''). c \<le> 0xFF" "\<forall>c \<in> set (js ''nonce''). c \<le> 0xFF"
    by (simp_all add: js_def)
  moreover have "\<forall>c \<in> set (js ''{''). c \<le> 0xFF" "\<forall>c \<in> set (js '':''). c \<le> 0xFF"
    "\<forall>c \<in> set (js '',''). c \<le> 0xFF" "\<forall>c \<in> set (js ''}''). c \<le> 0xFF"
    by (simp_all add: js_def)
  ultimately show ?thesis
    using assms unfolding JSON_stringify_def set_append by blast
qed

lemma substring_latin1: "\<forall>c \<in> set s. c \<le> 0xFF \<Longrightarrow> \<forall>c \<in> set (substring start stop s). c \<le> 0xFF"
  unfolding substring_def by (meson in_set_dropD in_set_takeD)

lemma substring_empty: "substring 2 15 s = [] \<longleftrightarrow> length s \<le> 2"
  by (auto simp add: substring_def)

lemma base64_digit_ascii_all: "list_all (\<lambda>n. base64_digit n < 0x80) [0..<64]"
  by code_simp

lemma base64_ascii:
  assumes "\<forall>b \<in> set bs. b < 256"
  shows "\<forall>c \<in> set (base64 bs). c < 0x80"
proof -
  have "base64_digit n < 0x80" if "n < 64" for n
    using base64_digit_ascii_all that by (simp add: list_all_iff)
  then have "\<forall>c \<in> set (map base64_digit (sextets bs)). c < 0x80"
    using sextets_less [OF assms] by simp
  then show ?thesis
    by (auto simp add: base64_def)
qed

lemma btoa_latin1:
  assumes "\<forall>c \<in> set s. c \<le> 0xFF"
  shows "btoa s = Inr (base64 (map unat s))" and "\<forall>c \<in> set (base64 (map unat s)). c < 0x80"
    and "atob (base64 (map unat s)) = Inr s"
proof -
  show b: "btoa s = Inr (base64 (map unat s))"
    using assms by (auto simp add: btoa_def)
  have "\<forall>b \<in> set (map unat s). b < 256"
  proof
    fix b
    assume "b \<in> set (map unat s)"
    then obtain c where "c \<in> set s" and "b = unat c"
      by auto
    then show "b < 256"
      using assms by (auto simp add: word_le_nat_alt)
  qed
  then show "\<forall>c \<in> set (base64 (map unat s)). c < 0x80"
    by (rule base64_ascii)
  show "atob (base64 (map unat s)) = Inr s"
    using atob_btoa [OF assms] b by auto
qed

lemma generated:
  assumes "\<forall>c \<in> set userId. c \<le> 0xFF" and "\<forall>c \<in> set random36. c \<le> 0xFF"
  shows "generateLinkedInAuthUrl random36 userId
           = Inr (js ''https://www.linkedin.com/oauth/v2/authorization'' @ 0x3F
                  # urlencoded
                      [(js ''response_type'', js ''code''),
                       (js ''client_id'', clientId LINKEDIN_CONFIG),
                       (js ''redirect_uri'', redirectUri LINKEDIN_CONFIG),
                       (js ''state'', base64 (map unat (JSON_stringify userId (substring 2 15 random36)))),
                       (js ''scope'', join (js '' '') (scopes LINKEDIN_CONFIG))])"
proof -
  have "\<forall>c \<in> set (JSON_stringify userId (substring 2 15 random36)). c \<le> 0xFF"
    using assms(1) substring_latin1 [OF assms(2)] by (rule JSON_stringify_latin1)
  then have "btoa (JSON_stringify userId (substring 2 15 random36))
               = Inr (base64 (map unat (JSON_stringify userId (substring 2 15 random36))))"
    by (rule btoa_latin1(1))
  moreover have "js ''?'' = [0x3F]"
    by (simp add: js_def)
  ultimately show ?thesis
    by (simp add: generateLinkedInAuthUrl_def Let_def)
qed

lemma searchParams_get_state:
  assumes "\<forall>c \<in> set state. c < 0x80"
  shows "searchParams_get
           (js ''https://www.linkedin.com/oauth/v2/authorization'' @ 0x3F
            # urlencoded
                [(js ''response_type'', js ''code''),
                 (js ''client_id'', clientId LINKEDIN_CONFIG),
                 (js ''redirect_uri'', redirectUri LINKEDIN_CONFIG),
                 (js ''state'', state),
                 (js ''scope'', join (js '' '') (scopes LINKEDIN_CONFIG))])
           (js ''state'') = Some state"
proof -
  have "0x3F \<notin> set (js ''https://www.linkedin.com/oauth/v2/authorization'')"
    by (simp add: js_def)
  moreover have "0x23 \<notin> set (js ''https://www.linkedin.com/oauth/v2/authorization'')"
    by (simp add: js_def)
  moreover have "\<forall>(k, v) \<in> set [(js ''response_type'', js ''code''),
                 (js ''client_id'', clientId LINKEDIN_CONFIG),
                 (js ''redirect_uri'', redirectUri LINKEDIN_CONFIG),
                 (js ''state'', state),
                 (js ''scope'', join (js '' '') (scopes LINKEDIN_CONFIG))].
            (\<forall>c \<in> set k. c < 0x80) \<and> (\<forall>c \<in> set v. c < 0x80)"
    using assms by (simp add: LINKEDIN_CONFIG_def js_def)
  ultimately have "query_pairs
           (js ''https://www.linkedin.com/oauth/v2/authorization'' @ 0x3F
            # urlencoded
                [(js ''response_type'', js ''code''),
                 (js ''client_id'', clientId LINKEDIN_CONFIG),
                 (js ''redirect_uri'', redirectUri LINKEDIN_CONFIG),
                 (js ''state'', state),
                 (js ''scope'', join (js '' '') (scopes LINKEDIN_CONFIG))])
         = map (\<lambda>(k, v). (Some k, Some v)) [(js ''response_type'', js ''code''),
                 (js ''client_id'', clientId LINKEDIN_CONFIG),
                 (js ''redirect_uri'', redirectUri LINKEDIN_CONFIG),
                 (js ''state'', state),
                 (js ''scope'', join (js '' '') (scopes LINKEDIN_CONFIG))]"
    by (rule query_pairs_href)
  then show ?thesis
    by (simp add: searchParams_get_def)
qed

lemma decode_state_generated:
  assumes "\<forall>c \<in> set userId. c \<le> 0xFF" and "\<forall>c \<in> set random36. c \<le> 0xFF"
  shows "\<exists>url. generateLinkedInAuthUrl random36 userId = Inr url
           \<and> searchParams_get url (js ''state'')
               = Some (base64 (map unat (JSON_stringify userId (substring 2 15 random36))))
           \<and> decode_state url = Some (userId, substring 2 15 random36)"
proof -
  let ?payload = "JSON_stringify userId (substring 2 15 random36)"
  let ?state = "base64 (map unat ?payload)"
  have latin1: "\<forall>c \<in> set ?payload. c \<le> 0xFF"
    using assms(1) substring_latin1 [OF assms(2)] by (rule JSON_stringify_latin1)
  obtain url where url: "generateLinkedInAuthUrl random36 userId = Inr url"
    and get: "searchParams_get url (js ''state'') = Some ?state"
    using generated [OF assms] searchParams_get_state [OF btoa_latin1(2) [OF latin1]] by simp
  have "atob ?state = Inr ?payload"
    using latin1 by (rule btoa_latin1(3))
  then have "decode_state url = Some (userId, substring 2 15 random36)"
    using get by (simp add: decode_state_def parse_state_stringify)
  then show ?thesis
    using url get by simp
qed

section \<open>A connection is stored (claim C1)\<close>




section \<open>What a written record holds (claim C2)\<close>




section \<open>A refused token exchange (claim C3)\<close>




section \<open>An unreadable profile (claim C4)\<close>

text \<open>
  C4, as the code has it. Take a callback with no \<open>error\<close> and a non-empty \<open>code\<close> that
  reaches the token exchange. When the token endpoint answered with success and a string
  \<open>access_token\<close>, and the profile cannot be read (the request throws, the body is not
  JSON, or reading \<open>sub\<close> off the body throws), the handler does not resolve the user and
  writes nothing: it logs the error and, where \<open>encodeURIComponent\<close> returns for the
  error's message, redirects with \<open>error=exchange_failed\<close> and that message, URI-encoded,
  as \<open>msg\<close>.
\<close>

theorem profile_unreadable:
  assumes "\<not> present (map_of searchParams (js ''error''))"
    and "map_of searchParams (js ''code'') = Some code" and "code \<noteq> []"
    and "createClient e = None"
    and "token_endpoint e (token_request e origin code) = Inr tokenResponse"
    and "ok tokenResponse" and "json tokenResponse = Inr tokenData"
    and "get_prop tokenData ''access_token'' = Inr (Str token)"
    and "get_prop tokenData ''expires_in'' = Inr expiresIn"
    and "userinfo_endpoint e (js ''Bearer '' @ token) = Inl x
         \<or> (\<exists>profileResponse. userinfo_endpoint e (js ''Bearer '' @ token) = Inr profileResponse
              \<and> (json profileResponse = Inl x
                  \<or> (\<exists>profileData. json profileResponse = Inr profileData \<and> get_prop profileData ''sub'' = Inl x)))"
  shows "snd (GET e origin searchParams w)
           = w\<lparr>trace := trace w @ [Fetch_accessToken (token_request e origin code),
                                  Fetch_userinfo (js ''Bearer '' @ token), ConsoleError x]\<rparr>
         \<and> (\<forall>msg. encodeURIComponent (message x) = Inr msg \<longrightarrow>
                fst (GET e origin searchParams w) = Inr (origin @ js ''/#/app/settings?error=exchange_failed&msg='' @ msg)
                \<and> sublist (js ''error=exchange_failed'') (origin @ js ''/#/app/settings?error=exchange_failed&msg='' @ msg))"
proof -
  let ?w' = "emit (Fetch_userinfo (js ''Bearer '' @ token)) (emit (Fetch_accessToken (token_request e origin code)) w)"
  have "fetch_profile e origin (Str token) expiresIn (emit (Fetch_accessToken (token_request e origin code)) w) = (Inl x, ?w')"
    using assms(10) by (auto simp add: fetch_profile_def ToString_def Let_def)
  then have "exchange e origin code w = (Inl x, ?w')"
    using assms(5-9) by (simp add: exchange_granted)
  then have "GET e origin searchParams w = catch_block origin x ?w'"
    using assms(1-4) by (simp add: GET_reaches)
  then show ?thesis
    by (simp add: catch_block_world catch_block_redirect contains_exchange_failed emit_def)
qed

text \<open>
  The theorem on the deployment \<open>garbled\<close>, whose profile body is not JSON.
\<close>

theorem profile_unreadable_witness:
  "snd (GET garbled (js ''https://app.example'') callback before)
     = before\<lparr>trace := trace before @ [Fetch_accessToken (token_request garbled (js ''https://app.example'') (js ''abc'')),
                                        Fetch_userinfo (js ''Bearer '' @ js ''T''),
                                        ConsoleError (Exn ''SyntaxError'' (js ''Unexpected token < in JSON at position 0''))]\<rparr>
   \<and> fst (GET garbled (js ''https://app.example'') callback before)
     = Inr (js ''https://app.example'' @ js ''/#/app/settings?error=exchange_failed&msg=''
              @ js ''Unexpected%20token%20%3C%20in%20JSON%20at%20position%200'')"
proof -
  let ?x = "Exn ''SyntaxError'' (js ''Unexpected token < in JSON at position 0'')"
  have "createClient garbled = None"
    and "token_endpoint garbled (token_request garbled (js ''https://app.example'') (js ''abc'')) = Inr granted"
    and "userinfo_endpoint garbled (js ''Bearer '' @ js ''T'') = Inl ?x
         \<or> (\<exists>profileResponse. userinfo_endpoint garbled (js ''Bearer '' @ js ''T'') = Inr profileResponse
              \<and> (json profileResponse = Inl ?x
                  \<or> (\<exists>profileData. json profileResponse = Inr profileData \<and> get_prop profileData ''sub'' = Inl ?x)))"
    by (simp_all add: garbled_def sample_def)
  from profile_unreadable [OF callback_error callback_code abc this(1,2) granted_fields this(3), of before]
  show ?thesis
    by (simp add: encode_unexpected_token)
qed

text \<open>
  The claim as the spec states it does not hold, in two runs.
  \<^item> A body without \<open>sub\<close>: in the deployment \<open>subless\<close> the profile is an empty object,
    \<open>sub\<close> is read as \<open>undefined\<close>, and the handler writes the record and redirects with
    \<open>success=true\<close>.
  \<^item> A failure whose message \<open>encodeURIComponent\<close> does not take: in the deployment
    \<open>interrupted\<close> the handler writes nothing and throws a URIError where the claim has
    a redirect.
\<close>

theorem subless_persisted_or_interrupted_thrown:
  "GET subless (js ''https://app.example'') callback before
     = (Inr (js ''https://app.example/#/app/settings?success=true''),
        before\<lparr>trace := [Fetch_accessToken (token_request subless (js ''https://app.example'') (js ''abc'')),
                          Fetch_userinfo (js ''Bearer T''), GetUser,
                          Update (connection (Str (js ''T'')) Undefined 1700003600123) (js ''user_id'') (js ''U'')],
                profiles := update_eq (connection (Str (js ''T'')) Undefined 1700003600123)
                              (js ''user_id'') (js ''U'') [row_U, row_V]\<rparr>)
   \<and> get_prop (Object []) ''sub'' = Inr Undefined
   \<and> GET interrupted (js ''https://app.example'') callback before
     = (Inl (Exn ''URIError'' (js ''URI malformed'')),
        before\<lparr>trace := [Fetch_accessToken (token_request interrupted (js ''https://app.example'') (js ''abc'')),
                          Fetch_userinfo (js ''Bearer T''),
                          ConsoleError (Exn ''Error'' [0xD83D])]\<rparr>)"
proof -
  have "GET subless (js ''https://app.example'') callback before
     = (Inr (js ''https://app.example'' @ js ''/#/app/settings?success=true''),
        before\<lparr>trace := [Fetch_accessToken (token_request subless (js ''https://app.example'') (js ''abc'')),
                          Fetch_userinfo (js ''Bearer T''), GetUser,
                          Update (connection (Str (js ''T'')) Undefined 1700003600123) (js ''user_id'') (js ''U'')],
                profiles := update_eq (connection (Str (js ''T'')) Undefined 1700003600123)
                              (js ''user_id'') (js ''U'') [row_U, row_V]\<rparr>)"
    by (simp add: run_defs subless_def sample_defs setSeconds_hour bearer_T)
  then have persisted: "GET subless (js ''https://app.example'') callback before
     = (Inr (js ''https://app.example/#/app/settings?success=true''),
        before\<lparr>trace := [Fetch_accessToken (token_request subless (js ''https://app.example'') (js ''abc'')),
                          Fetch_userinfo (js ''Bearer T''), GetUser,
                          Update (connection (Str (js ''T'')) Undefined 1700003600123) (js ''user_id'') (js ''U'')],
                profiles := update_eq (connection (Str (js ''T'')) Undefined 1700003600123)
                              (js ''user_id'') (js ''U'') [row_U, row_V]\<rparr>)"
    by (simp add: js_def)
  have absent: "get_prop (Object []) ''sub'' = Inr Undefined"
    by simp
  have thrown: "GET interrupted (js ''https://app.example'') callback before
     = (Inl (Exn ''URIError'' (js ''URI malformed'')),
        before\<lparr>trace := [Fetch_accessToken (token_request interrupted (js ''https://app.example'') (js ''abc'')),
                          Fetch_userinfo (js ''Bearer T''),
                          ConsoleError (Exn ''Error'' [0xD83D])]\<rparr>)"
    by (simp add: run_defs interrupted_def sample_defs encode_defs URIError_def bearer_T)
  from persisted absent thrown show ?thesis
    by (simp only: simp_thms)
qed

section \<open>Provider-side errors and cancellations (claim C5)\<close>

text \<open>
  C5. When the \<open>error\<close> parameter of the callback is \<open>access_denied\<close>, the handler
  redirects to the settings page with \<open>error=access_denied\<close> and the provider's
  \<open>error_description\<close> as \<open>msg\<close> (the text \<open>null\<close> when there is none), and leaves the
  outside as it was: no call to the token endpoint and no write to the table.
\<close>

theorem access_denied_redirect:
  assumes "map_of searchParams (js ''error'') = Some (js ''access_denied'')"
  shows "\<exists>url. GET e origin searchParams w = (Inr url, w)
           \<and> url = origin @ js ''/#/app/settings?error=access_denied&msg=''
                     @ template (map_of searchParams (js ''error_description''))
           \<and> sublist (js ''error=access_denied'') url"
proof -
  have "present (Some (js ''access_denied''))"
    by (simp add: present_def js_def)
  then show ?thesis
    using assms contains_access_denied by (simp add: GET_def template_def access_denied_text)
qed

theorem access_denied_redirect_witness:
  "GET sample (js ''https://app.example'')
     [(js ''error'', js ''access_denied''), (js ''error_description'', js ''The user cancelled'')] before
   = (Inr (js ''https://app.example/#/app/settings?error=access_denied&msg=The user cancelled''), before)"
proof -
  have "map_of [(js ''error'', js ''access_denied''), (js ''error_description'', js ''The user cancelled'')] (js ''error'')
        = Some (js ''access_denied'')"
    by simp
  from access_denied_redirect [OF this, of sample "js ''https://app.example''" before]
  show ?thesis
    by (simp add: template_def js_def)
qed

section \<open>No session (claim C6)\<close>

text \<open>
  C6. When the token exchange and the profile fetch succeed (a success answer with a
  string \<open>access_token\<close> and a numeric \<open>expires_in\<close>, a profile body that can be read) and
  the session resolves to no user, the handler calls the two endpoints and the session,
  logs a warning, writes nothing, and redirects with \<open>success=true\<close>.
\<close>

theorem no_session_still_success:
  assumes "\<not> present (map_of searchParams (js ''error''))"
    and "map_of searchParams (js ''code'') = Some code" and "code \<noteq> []"
    and "createClient e = None"
    and "token_endpoint e (token_request e origin code) = Inr tokenResponse"
    and "ok tokenResponse" and "json tokenResponse = Inr tokenData"
    and "get_prop tokenData ''access_token'' = Inr (Str token)"
    and "get_prop tokenData ''expires_in'' = Inr (Number q)"
    and "userinfo_endpoint e (js ''Bearer '' @ token) = Inr profileResponse"
    and "json profileResponse = Inr profileData"
    and "get_prop profileData ''sub'' = Inr linkedinId"
    and "getUser e = Inr None"
  shows "\<exists>url. GET e origin searchParams w =
           (Inr url, w\<lparr>trace := trace w @ [Fetch_accessToken (token_request e origin code),
                                            Fetch_userinfo (js ''Bearer '' @ token), GetUser, Warn]\<rparr>)
           \<and> sublist (js ''success=true'') url"
proof -
  obtain sec where "plus e (getSeconds (LocalTZA e) (clock e)) (Number q) = Inr sec"
    by (simp add: plus_def)
  then have "exchange e origin code w =
          persist e origin (Str token) linkedinId (setSeconds (LocalTZA e) (clock e) sec)
            (emit (Fetch_userinfo (js ''Bearer '' @ token)) (emit (Fetch_accessToken (token_request e origin code)) w))"
    using assms(5-12) by (simp add: exchange_granted fetch_profile_read [where sec = sec] ToString_def)
  then show ?thesis
    using assms(1-4,13) contains_success by (simp add: GET_reaches persist_def emit_def)
qed

text \<open>
  The theorem on the deployment \<open>anonymous\<close>.
\<close>

theorem no_session_still_success_witness:
  "\<exists>url. GET anonymous (js ''https://app.example'') callback before
          = (Inr url, before\<lparr>trace := trace before @
                [Fetch_accessToken (token_request anonymous (js ''https://app.example'') (js ''abc'')),
                 Fetch_userinfo (js ''Bearer '' @ js ''T''), GetUser, Warn]\<rparr>)
       \<and> sublist (js ''success=true'') url"
proof -
  have "createClient anonymous = None"
    and "token_endpoint anonymous (token_request anonymous (js ''https://app.example'') (js ''abc'')) = Inr granted"
    and "userinfo_endpoint anonymous (js ''Bearer '' @ js ''T'') = Inr userinfo"
    and "getUser anonymous = Inr None"
    by (simp_all add: anonymous_def sample_def)
  from no_session_still_success [OF callback_error callback_code abc this(1,2) granted_fields this(3) userinfo_fields this(4)]
  show ?thesis .
qed

section \<open>The state of the authorization URL (claim C7)\<close>

text \<open>
  C7, as the code has it. For a user id whose code units are all at most \<open>0xFF\<close>, and
  whatever text of such code units \<open>Math.random().toString(36)\<close> gives in two calls, both
  calls return a URL, and the state parameter of the first decodes back to exactly that
  user id and the nonce of the call, which is \<open>substring(2, 15)\<close> of the random text:
  non-empty exactly when that text has more than two code units. The states of the two
  calls differ exactly when their nonces do.
\<close>

theorem state_round_trip:
  assumes "\<forall>c \<in> set userId. c \<le> 0xFF"
    and "\<forall>c \<in> set random36. c \<le> 0xFF" and "\<forall>c \<in> set random36'. c \<le> 0xFF"
  shows "\<exists>url url'. generateLinkedInAuthUrl random36 userId = Inr url
           \<and> generateLinkedInAuthUrl random36' userId = Inr url'
           \<and> decode_state url = Some (userId, substring 2 15 random36)
           \<and> (substring 2 15 random36 \<noteq> [] \<longleftrightarrow> 2 < length random36)
           \<and> (searchParams_get url (js ''state'') \<noteq> searchParams_get url' (js ''state'')
                \<longleftrightarrow> substring 2 15 random36 \<noteq> substring 2 15 random36')"
proof -
  obtain url where url: "generateLinkedInAuthUrl random36 userId = Inr url"
    and get: "searchParams_get url (js ''state'')
                = Some (base64 (map unat (JSON_stringify userId (substring 2 15 random36))))"
    and decoded: "decode_state url = Some (userId, substring 2 15 random36)"
    using decode_state_generated [OF assms(1,2)] by blast
  obtain url' where url': "generateLinkedInAuthUrl random36' userId = Inr url'"
    and get': "searchParams_get url' (js ''state'')
                = Some (base64 (map unat (JSON_stringify userId (substring 2 15 random36'))))"
    and decoded': "decode_state url' = Some (userId, substring 2 15 random36')"
    using decode_state_generated [OF assms(1,3)] by blast
  have "substring 2 15 random36 = substring 2 15 random36'"
    if "searchParams_get url (js ''state'') = searchParams_get url' (js ''state'')"
  proof -
    have "decode_state url = decode_state url'"
      using that by (simp add: decode_state_def)
    then show ?thesis
      using decoded decoded' by simp
  qed
  moreover have "searchParams_get url (js ''state'') = searchParams_get url' (js ''state'')"
    if "substring 2 15 random36 = substring 2 15 random36'"
    using that get get' by simp
  moreover have "substring 2 15 random36 \<noteq> [] \<longleftrightarrow> 2 < length random36"
    using substring_empty [of random36] by auto
  ultimately show ?thesis
    using url url' decoded by blast
qed

text \<open>
  The theorem on the user id \<open>user-1\<close> and the random texts \<open>0.4fzyo82mvyr\<close> and
  \<open>0.i\<close>: the two URLs, the decoded state of the first, and two different states.
\<close>

theorem state_round_trip_witness:
  "generateLinkedInAuthUrl (js ''0.4fzyo82mvyr'') (js ''user-1'')
     = Inr (js ''https://www.linkedin.com/oauth/v2/authorization?response_type=code&client_id=86j7ddjv9w7b8m&redirect_uri=http%3A%2F%2Flocalhost%3A3000%2Fapi%2Flinkedin%2Fcallback&state=eyJ1c2VySWQiOiJ1c2VyLTEiLCJub25jZSI6IjRmenlvODJtdnlyIn0%3D&scope=openid+profile+email+w_member_social'')
   \<and> generateLinkedInAuthUrl (js ''0.i'') (js ''user-1'')
     = Inr (js ''https://www.linkedin.com/oauth/v2/authorization?response_type=code&client_id=86j7ddjv9w7b8m&redirect_uri=http%3A%2F%2Flocalhost%3A3000%2Fapi%2Flinkedin%2Fcallback&state=eyJ1c2VySWQiOiJ1c2VyLTEiLCJub25jZSI6ImkifQ%3D%3D&scope=openid+profile+email+w_member_social'')
   \<and> decode_state (js ''https://www.linkedin.com/oauth/v2/authorization?response_type=code&client_id=86j7ddjv9w7b8m&redirect_uri=http%3A%2F%2Flocalhost%3A3000%2Fapi%2Flinkedin%2Fcallback&state=eyJ1c2VySWQiOiJ1c2VyLTEiLCJub25jZSI6IjRmenlvODJtdnlyIn0%3D&scope=openid+profile+email+w_member_social'')
     = Some (js ''user-1'', js ''4fzyo82mvyr'')
   \<and> searchParams_get (js ''https://www.linkedin.com/oauth/v2/authorization?response_type=code&client_id=86j7ddjv9w7b8m&redirect_uri=http%3A%2F%2Flocalhost%3A3000%2Fapi%2Flinkedin%2Fcallback&state=eyJ1c2VySWQiOiJ1c2VyLTEiLCJub25jZSI6IjRmenlvODJtdnlyIn0%3D&scope=openid+profile+email+w_member_social'') (js ''state'')
     \<noteq> searchParams_get (js ''https://www.linkedin.com/oauth/v2/authorization?response_type=code&client_id=86j7ddjv9w7b8m&redirect_uri=http%3A%2F%2Flocalhost%3A3000%2Fapi%2Flinkedin%2Fcallback&state=eyJ1c2VySWQiOiJ1c2VyLTEiLCJub25jZSI6ImkifQ%3D%3D&scope=openid+profile+email+w_member_social'') (js ''state'')"
proof -
  have u: "\<forall>c \<in> set (js ''user-1''). c \<le> 0xFF"
    by (simp add: js_def)
  have r: "\<forall>c \<in> set (js ''0.4fzyo82mvyr''). c \<le> 0xFF"
    by (simp add: js_def)
  have r': "\<forall>c \<in> set (js ''0.i''). c \<le> 0xFF"
    by (simp add: js_def)
  have n: "substring 2 15 (js ''0.4fzyo82mvyr'') = js ''4fzyo82mvyr''"
    and n': "substring 2 15 (js ''0.i'') = js ''i''"
    by (simp_all add: substring_def js_def)
  have url: "generateLinkedInAuthUrl (js ''0.4fzyo82mvyr'') (js ''user-1'')
     = Inr (js ''https://www.linkedin.com/oauth/v2/authorization?response_type=code&client_id=86j7ddjv9w7b8m&redirect_uri=http%3A%2F%2Flocalhost%3A3000%2Fapi%2Flinkedin%2Fcallback&state=eyJ1c2VySWQiOiJ1c2VyLTEiLCJub25jZSI6IjRmenlvODJtdnlyIn0%3D&scope=openid+profile+email+w_member_social'')"
    by code_simp
  have url': "generateLinkedInAuthUrl (js ''0.i'') (js ''user-1'')
     = Inr (js ''https://www.linkedin.com/oauth/v2/authorization?response_type=code&client_id=86j7ddjv9w7b8m&redirect_uri=http%3A%2F%2Flocalhost%3A3000%2Fapi%2Flinkedin%2Fcallback&state=eyJ1c2VySWQiOiJ1c2VyLTEiLCJub25jZSI6ImkifQ%3D%3D&scope=openid+profile+email+w_member_social'')"
    by code_simp
  show ?thesis
    using state_round_trip [OF u r r'] unfolding n n' url url' by auto
qed

text \<open>
  The claim as the spec states it does not hold, in two calls for the user id \<open>user-1\<close>
  and one for a user id that is the euro sign.
  \<^item> When the number drawn is zero, \<open>toString(36)\<close> gives \<open>0\<close>, of which
    \<open>substring(2, 15)\<close> leaves nothing: the nonce is empty, the state is that of
    \<open>{"userId":"user-1","nonce":""}\<close>, and a second call that draws zero returns the
    same state.
  \<^item> The euro sign is the one code unit \<open>0x20AC\<close>: \<open>btoa\<close> throws and the builder
    returns no URL.
\<close>

theorem zero_draw_or_wide_user_id:
  "generateLinkedInAuthUrl (js ''0'') (js ''user-1'')
     = Inr (js ''https://www.linkedin.com/oauth/v2/authorization?response_type=code&client_id=86j7ddjv9w7b8m&redirect_uri=http%3A%2F%2Flocalhost%3A3000%2Fapi%2Flinkedin%2Fcallback&state=eyJ1c2VySWQiOiJ1c2VyLTEiLCJub25jZSI6IiJ9&scope=openid+profile+email+w_member_social'')
   \<and> decode_state (js ''https://www.linkedin.com/oauth/v2/authorization?response_type=code&client_id=86j7ddjv9w7b8m&redirect_uri=http%3A%2F%2Flocalhost%3A3000%2Fapi%2Flinkedin%2Fcallback&state=eyJ1c2VySWQiOiJ1c2VyLTEiLCJub25jZSI6IiJ9&scope=openid+profile+email+w_member_social'')
     = Some (js ''user-1'', [])
   \<and> generateLinkedInAuthUrl (js ''0.4fzyo82mvyr'') [0x20AC]
     = Inl (Exn ''InvalidCharacterError'' (js ''Invalid character''))"
proof -
  have u: "\<forall>c \<in> set (js ''user-1''). c \<le> 0xFF"
    by (simp add: js_def)
  have r: "\<forall>c \<in> set (js ''0''). c \<le> 0xFF"
    by (simp add: js_def)
  have n: "substring 2 15 (js ''0'') = []"
    by (simp add: substring_def js_def)
  have url: "generateLinkedInAuthUrl (js ''0'') (js ''user-1'')
     = Inr (js ''https://www.linkedin.com/oauth/v2/authorization?response_type=code&client_id=86j7ddjv9w7b8m&redirect_uri=http%3A%2F%2Flocalhost%3A3000%2Fapi%2Flinkedin%2Fcallback&state=eyJ1c2VySWQiOiJ1c2VyLTEiLCJub25jZSI6IiJ9&scope=openid+profile+email+w_member_social'')"
    by code_simp
  have "\<exists>c \<in> set (JSON_stringify [0x20AC] (substring 2 15 (js ''0.4fzyo82mvyr''))). 0xFF < c"
    by (simp add: JSON_stringify_def QuoteJSONString_def leading_surrogate_def trailing_surrogate_def quote_unit_def)
  then have wide: "generateLinkedInAuthUrl (js ''0.4fzyo82mvyr'') [0x20AC]
     = Inl (Exn ''InvalidCharacterError'' (js ''Invalid character''))"
    by (simp add: generateLinkedInAuthUrl_def btoa_def InvalidCharacterError_def)
  show ?thesis
    using decode_state_generated [OF u r] wide unfolding n url by auto
qed

section \<open>The redirect URI of the token request (claim C8)\<close>

text \<open>
  C8, as the code has it. The \<open>redirect_uri\<close> of every token request is the origin of
  the callback request followed by \<open>/api/linkedin/callback\<close>; it is the \<open>redirectUri\<close> of
  \<open>LINKEDIN_CONFIG\<close>, which the authorization URL carries, exactly when that origin is
  \<open>http://localhost:3000\<close>.
\<close>

theorem token_request_redirect_uri:
  assumes "trace (snd (GET e origin searchParams w)) = trace w @ evs"
    and "Fetch_accessToken body \<in> set evs"
  shows "map_of body (js ''redirect_uri'') = Some (origin @ js ''/api/linkedin/callback'')
         \<and> (origin @ js ''/api/linkedin/callback'' = redirectUri LINKEDIN_CONFIG \<longleftrightarrow> origin = js ''http://localhost:3000'')"
proof -
  have "\<exists>code. body = token_request e origin code"
    by (cases rule: GET_outcomes [of e origin searchParams w]) (use assms in auto)
  then have "map_of body (js ''redirect_uri'') = Some (origin @ js ''/api/linkedin/callback'')"
    by (auto simp add: token_request_def)
  moreover have "redirectUri LINKEDIN_CONFIG = js ''http://localhost:3000'' @ js ''/api/linkedin/callback''"
    by (simp add: LINKEDIN_CONFIG_def js_def)
  ultimately show ?thesis
    by simp
qed

text \<open>
  The theorem on the sample deployment, called back at \<open>http://localhost:3000\<close>.
\<close>

theorem token_request_redirect_uri_witness:
  "map_of (token_request sample (js ''http://localhost:3000'') (js ''abc'')) (js ''redirect_uri'')
     = Some (js ''http://localhost:3000/api/linkedin/callback'')
   \<and> js ''http://localhost:3000/api/linkedin/callback'' = redirectUri LINKEDIN_CONFIG"
proof -
  have "Fetch_accessToken (token_request sample (js ''http://localhost:3000'') (js ''abc''))
          \<in> set [Fetch_accessToken (token_request sample (js ''http://localhost:3000'') (js ''abc'')),
                  Fetch_userinfo (js ''Bearer T''), GetUser,
                  Update (connection (Str (js ''T'')) (Str (js ''ext-123'')) 1700003600123) (js ''user_id'') (js ''U'')]"
    by simp
  from token_request_redirect_uri [OF sample_events this]
  have "map_of (token_request sample (js ''http://localhost:3000'') (js ''abc'')) (js ''redirect_uri'')
          = Some (js ''http://localhost:3000'' @ js ''/api/linkedin/callback'')"
    and "js ''http://localhost:3000'' @ js ''/api/linkedin/callback'' = redirectUri LINKEDIN_CONFIG"
    by simp_all
  moreover have "js ''http://localhost:3000'' @ js ''/api/linkedin/callback'' = js ''http://localhost:3000/api/linkedin/callback''"
    by (simp add: js_def)
  ultimately show ?thesis
    by simp
qed

text \<open>
  The claim as the spec states it does not hold: called back at \<open>https://app.example\<close>,
  the handler sends another \<open>redirect_uri\<close> than the one of \<open>LINKEDIN_CONFIG\<close>.
\<close>

theorem redirect_uri_follows_origin:
  "Fetch_accessToken (token_request sample (js ''https://app.example'') (js ''abc''))
     \<in> set (trace (snd (GET sample (js ''https://app.example'') callback before)))
   \<and> map_of (token_request sample (js ''https://app.example'') (js ''abc'')) (js ''redirect_uri'')
       = Some (js ''https://app.example/api/linkedin/callback'')
   \<and> js ''https://app.example/api/linkedin/callback'' \<noteq> redirectUri LINKEDIN_CONFIG"
proof -
  have "js ''https://app.example'' @ js ''/api/linkedin/callback'' = js ''https://app.example/api/linkedin/callback''"
    by (simp add: js_def)
  then have "map_of (token_request sample (js ''https://app.example'') (js ''abc'')) (js ''redirect_uri'')
       = Some (js ''https://app.example/api/linkedin/callback'')"
    by (simp add: token_request_def)
  then show ?thesis
    by (simp add: sample_events LINKEDIN_CONFIG_def)
qed

section \<open>Errors that leave the handler (claim C9)\<close>

text \<open>
  C9 fails on the code. The \<open>catch\<close> clause URI-encodes the message of the error it
  caught, and \<open>encodeURIComponent\<close> throws a URIError on an unpaired surrogate; nothing
  catches that. In the deployment \<open>unpaired\<close> the token endpoint answers 400 with the
  JSON body \<open>{"error_description":"\ud800"}\<close>: the handler throws instead of redirecting.
\<close>

theorem unpaired_surrogate_escapes_catch:
  "fst (GET unpaired (js ''https://app.example'') callback before) = Inl (Exn ''URIError'' (js ''URI malformed''))"
  by (simp add: run_defs unpaired_def sample_defs encode_defs URIError_def)

section \<open>What a run changes in the table (claim C10)\<close>

text \<open>
  C10. Whatever the invocation, the table keeps its rows; in every row, every column
  other than \<open>linkedin_token\<close>, \<open>linkedin_profile_id\<close>, \<open>linkedin_connected\<close> and
  \<open>linkedin_token_expires_at\<close> keeps its value; a row whose \<open>user_id\<close> is not the id of the
  session's user is unchanged; and every update the handler issues names exactly these
  four columns and is filtered by the \<open>user_id\<close> of the session's user.
\<close>

theorem profiles_frame:
  assumes "snd (GET e origin searchParams w) = w'"
  shows "length (profiles w') = length (profiles w)
    \<and> (\<forall>i < length (profiles w).
          (\<forall>column. column \<notin> {js ''linkedin_token'', js ''linkedin_profile_id'', js ''linkedin_connected'',
                               js ''linkedin_token_expires_at''} \<longrightarrow>
             (profiles w' ! i) column = (profiles w ! i) column)
          \<and> ((\<forall>uid. getUser e = Inr (Some uid) \<longrightarrow> (profiles w ! i) (js ''user_id'') \<noteq> Some (Val (Str uid))) \<longrightarrow>
               profiles w' ! i = profiles w ! i))
    \<and> (\<forall>evs values column x. trace w' = trace w @ evs \<longrightarrow> Update values column x \<in> set evs \<longrightarrow>
          map fst values = [js ''linkedin_token'', js ''linkedin_profile_id'', js ''linkedin_connected'',
                            js ''linkedin_token_expires_at'']
          \<and> column = js ''user_id'' \<and> getUser e = Inr (Some x))"
proof (cases rule: GET_outcomes [of e origin searchParams w])
  case (written code tokenResponse tokenData a xin token profileResponse profileData l sec uid t)
  have "fst ` set (connection a l t) = {js ''linkedin_token'', js ''linkedin_profile_id'', js ''linkedin_connected'',
                               js ''linkedin_token_expires_at''}"
    by (simp add: connection_def)
  moreover have "w' = w\<lparr>trace := trace w @ [Fetch_accessToken (token_request e origin code),
                                    Fetch_userinfo (js ''Bearer '' @ token), GetUser,
                                    Update (connection a l t) (js ''user_id'') uid],
                profiles := update_eq (connection a l t) (js ''user_id'') uid (profiles w)\<rparr>"
    using assms written(15) by simp
  ultimately show ?thesis
    using written(13) by (auto simp add: update_eq_frame update_eq_other connection_columns)
qed (use assms in \<open>auto simp add: connection_columns\<close>)

text \<open>
  The theorem on the sample deployment: two rows before and after, the name in the row
  of \<open>U\<close> and the whole row of \<open>V\<close> unchanged.
\<close>

theorem profiles_frame_witness:
  "length (profiles (snd (GET sample (js ''https://app.example'') callback before))) = 2
   \<and> (profiles (snd (GET sample (js ''https://app.example'') callback before)) ! 0) (js ''full_name'')
       = Some (Val (Str (js ''Uma'')))
   \<and> profiles (snd (GET sample (js ''https://app.example'') callback before)) ! 1 = row_V"
proof -
  let ?w' = "snd (GET sample (js ''https://app.example'') callback before)"
  from profiles_frame [OF refl, of sample "js ''https://app.example''" callback before]
  have len: "length (profiles ?w') = length (profiles before)"
    and frame: "\<forall>i < length (profiles before).
          (\<forall>column. column \<notin> {js ''linkedin_token'', js ''linkedin_profile_id'', js ''linkedin_connected'',
                               js ''linkedin_token_expires_at''} \<longrightarrow>
             (profiles ?w' ! i) column = (profiles before ! i) column)
          \<and> ((\<forall>uid. getUser sample = Inr (Some uid) \<longrightarrow> (profiles before ! i) (js ''user_id'') \<noteq> Some (Val (Str uid))) \<longrightarrow>
               profiles ?w' ! i = profiles before ! i)"
    by simp_all
  have "(profiles ?w' ! 0) (js ''full_name'') = (profiles before ! 0) (js ''full_name'')"
    using frame by (simp add: before_def)
  moreover have "profiles ?w' ! 1 = profiles before ! 1"
    using frame by (simp add: before_def sample_def row_V_def)
  ultimately show ?thesis
    using len by (simp add: before_def row_U_def)
qed

end
